theory Spec2Isabelle
  imports Complex_Main "HOL-Library.Multiset"
begin

section \<open>Errors\<close>

text \<open>
  A Go \<open>error\<close> value. \<open>EOF\<close> is \<open>io.EOF\<close>, which \<open>ensureParentPage\<close> uses as its
  "found" sentinel; \<open>Canceled\<close> and \<open>DeadlineExceeded\<close> are the two values \<open>ctx.Err()\<close>
  can return; every other error (protocol, evaluation, decoding) is \<open>Err\<close> with its
  message. A function returning \<open>error\<close> returns \<open>error option\<close>, \<open>None\<close> being \<open>nil\<close>.
\<close>

datatype error = EOF | Canceled | DeadlineExceeded | Err string

section \<open>Frame resolution: \<open>ensureParentPage\<close>\<close>

text \<open>
  The frame tree as the browser answers for it. An iframe element \<open>f\<close> found by
  \<open>page.ElementsE("", "iframe")\<close> has its remote object id, the page \<open>f.Frame()\<close> that
  represents it, and the result of \<open>f.ReleaseE()\<close>. A page has the result of
  \<open>p.resolveNode(nodeID)\<close> for the node searched for (\<open>Inr ''''\<close>: no error, empty
  object id) and the two results of \<open>ElementsE\<close>: the list and the error.
\<close>

datatype Page = Page
  (resolveNode: "error + string")
  (ElementsE_list: "Element list")
  (ElementsE_err: "error option")
and Element = Element
  (ObjectID: string)
  (Frame: Page)
  (ReleaseE: "error option")

text \<open>The calls the walk makes on iframe handles, in the order it makes them;
  a \<open>resolveNode\<close> call is recorded with what it returned.\<close>

datatype call = Call_resolveNode string "error + string" | Call_ReleaseE string

text \<open>The fields of the element \<open>el\<close> that the walk rebinds, and the log of calls.\<close>

record el_state =
  el_page :: Page
  el_ObjectID :: string
  calls :: "call list"

text \<open>
  The closure \<open>walk\<close> and its \<open>for _, f := range list\<close> loop. After \<open>err = walk(p)\<close>
  the source assigns \<open>err = f.ReleaseE()\<close> to the same variable, so the two tests that
  follow both read the result of \<open>ReleaseE\<close>; the result of the inner walk is dropped.
\<close>

fun walk :: "Page \<Rightarrow> el_state \<Rightarrow> error option \<times> el_state"
  and walk_range :: "Element list \<Rightarrow> el_state \<Rightarrow> error option \<times> el_state"
where
  "walk (Page r list lerr) s =
     (case lerr of
        Some e \<Rightarrow> (Some e, s)
      | None \<Rightarrow> walk_range list s)"
| "walk_range [] s = (None, s)"
| "walk_range (Element oid p rel # rest) s =
     (let s1 = s\<lparr>calls := calls s @ [Call_resolveNode oid (resolveNode p)]\<rparr> in
      case resolveNode p of
        Inl e \<Rightarrow> (Some e, s1)
      | Inr objID \<Rightarrow>
          if objID \<noteq> [] then (Some EOF, s1\<lparr>el_page := p, el_ObjectID := objID\<rparr>)
          else
            (case walk p s1 of
               (err, s2) \<Rightarrow>
                 (let err = rel;
                      s3 = s2\<lparr>calls := calls s2 @ [Call_ReleaseE oid]\<rparr>
                  in case err of
                       Some e \<Rightarrow> (Some e, s3)
                     | None \<Rightarrow> walk_range rest s3)))"

text \<open>\<open>ensureParentPage\<close>; \<open>has\<close> is the result of \<open>el.page.hasElement(objID)\<close>.\<close>

definition ensureParentPage :: "error + bool \<Rightarrow> el_state \<Rightarrow> error option \<times> el_state" where
  "ensureParentPage has s =
     (case has of
        Inl e \<Rightarrow> (Some e, s)
      | Inr True \<Rightarrow> (None, s)
      | Inr False \<Rightarrow>
          (case walk (el_page s) s of
             (err, s') \<Rightarrow> if err = Some EOF then (None, s') else (err, s')))"

text \<open>Readings of the call log.\<close>

fun visited :: "call list \<Rightarrow> string list" where
  "visited [] = []"
| "visited (Call_resolveNode h r # cs) = h # visited cs"
| "visited (Call_ReleaseE h # cs) = visited cs"

fun released :: "call list \<Rightarrow> string list" where
  "released [] = []"
| "released (Call_resolveNode h r # cs) = released cs"
| "released (Call_ReleaseE h # cs) = h # released cs"

text \<open>Visits that matched (a non-empty object id), that failed, and that came back
  empty without error.\<close>

fun matched :: "call list \<Rightarrow> string list" where
  "matched [] = []"
| "matched (Call_resolveNode h r # cs) =
     (case r of Inr objID \<Rightarrow> if objID \<noteq> [] then h # matched cs else matched cs
              | Inl e \<Rightarrow> matched cs)"
| "matched (Call_ReleaseE h # cs) = matched cs"

fun failed :: "call list \<Rightarrow> string list" where
  "failed [] = []"
| "failed (Call_resolveNode h r # cs) =
     (case r of Inr objID \<Rightarrow> failed cs | Inl e \<Rightarrow> h # failed cs)"
| "failed (Call_ReleaseE h # cs) = failed cs"

fun unmatched :: "call list \<Rightarrow> string list" where
  "unmatched [] = []"
| "unmatched (Call_resolveNode h r # cs) =
     (case r of Inr objID \<Rightarrow> if objID = [] then h # unmatched cs else unmatched cs
              | Inl e \<Rightarrow> unmatched cs)"
| "unmatched (Call_ReleaseE h # cs) = unmatched cs"

text \<open>The object ids of all iframe elements of a frame tree.\<close>

fun handles :: "Page \<Rightarrow> string list"
  and handles_list :: "Element list \<Rightarrow> string list"
where
  "handles (Page r list lerr) = handles_list list"
| "handles_list [] = []"
| "handles_list (Element oid p rel # rest) = oid # handles p @ handles_list rest"

text \<open>The calls one run of the walk adds to the log.\<close>

definition walk_calls :: "Page \<Rightarrow> el_state \<Rightarrow> call list" where
  "walk_calls pg s = drop (length (calls s)) (calls (snd (walk pg s)))"

text \<open>What every run of the walk maintains: the released handles are the visited ones
  whose resolution came back empty, and every visit is of a handle of the tree.\<close>

definition walk_inv :: "string list \<Rightarrow> call list \<Rightarrow> bool" where
  "walk_inv hs new \<longleftrightarrow>
     mset (released new) = mset (unmatched new) \<and> mset (visited new) \<subseteq># mset hs"

text \<open>Concrete frame trees. \<open>leaf\<close> is an iframe with no iframes of its own whose release
  succeeds. In \<open>nested_tree\<close> the node resolves only in \<open>A1\<close>, the child of the first
  iframe \<open>A\<close>, and \<open>B\<close> is a later sibling of \<open>A\<close>; in \<open>nested_tree2\<close> it resolves in
  \<open>B\<close> as well; in \<open>failing_tree\<close> the resolution in the only iframe fails.\<close>

definition leaf :: "string \<Rightarrow> error + string \<Rightarrow> Element" where
  "leaf oid r = Element oid (Page r [] None) None"

definition nested_tree :: Page where
  "nested_tree =
     Page (Inr [])
       [Element ''A'' (Page (Inr []) [leaf ''A1'' (Inr ''obj'')] None) None,
        leaf ''B'' (Inr [])]
       None"

definition nested_tree2 :: Page where
  "nested_tree2 =
     Page (Inr [])
       [Element ''A'' (Page (Inr []) [leaf ''A1'' (Inr ''obj'')] None) None,
        leaf ''B'' (Inr ''objB'')]
       None"

definition failing_tree :: Page where
  "failing_tree = Page (Inr []) [leaf ''A'' (Inl (Err ''resolve failed''))] None"

text \<open>The element before the search: bound to the root page with a handle that the
  root page does not have.\<close>

definition stale :: "Page \<Rightarrow> el_state" where
  "stale pg = \<lparr>el_page = pg, el_ObjectID = ''stale'', calls = []\<rparr>"

text \<open>The rebindings of a log: each visit that matched, with the object id that
  \<open>resolveNode\<close> returned and the walk stored in \<open>el.ObjectID\<close>. The last one is the
  binding the element is left with.\<close>

fun bindings :: "call list \<Rightarrow> (string \<times> string) list" where
  "bindings [] = []"
| "bindings (Call_resolveNode h r # cs) =
     (case r of Inr objID \<Rightarrow> if objID \<noteq> [] then (h, objID) # bindings cs else bindings cs
              | Inl e \<Rightarrow> bindings cs)"
| "bindings (Call_ReleaseE h # cs) = bindings cs"

text \<open>What a run of the walk does to the element, read off the calls it added: no
  match leaves the element as it was; otherwise the element holds the object id of
  the last match and a page in which the node resolves to it.\<close>

definition rebound :: "el_state \<Rightarrow> call list \<Rightarrow> el_state \<Rightarrow> bool" where
  "rebound s new s' \<longleftrightarrow>
     (case bindings new of
        [] \<Rightarrow> el_page s' = el_page s \<and> el_ObjectID s' = el_ObjectID s
      | b # bs \<Rightarrow> el_ObjectID s' = snd (last (b # bs))
                 \<and> resolveNode (el_page s') = Inr (snd (last (b # bs))))"

text \<open>In \<open>sibling_tree\<close> the root lists the iframes \<open>A\<close>, \<open>B\<close> and \<open>C\<close>; the node
  resolves in \<open>B\<close> only, and \<open>A\<close> has one iframe \<open>A1\<close> of its own.\<close>

definition sibling_tree :: Page where
  "sibling_tree =
     Page (Inr [])
       [Element ''A'' (Page (Inr []) [leaf ''A1'' (Inr [])] None) None,
        leaf ''B'' (Inr ''obj''),
        leaf ''C'' (Inr [])]
       None"

section \<open>Element operations\<close>

subsection \<open>Values and the log of calls\<close>

text \<open>
  \<open>float64\<close> values are modelled by the real number they denote: the coordinates are
  decoded from JSON numbers, so they are finite, and on finite values Go's \<open>==\<close> is
  equality of the numbers denoted. Rounding in \<open>+\<close>, \<open>-\<close> and \<open>/\<close> is not modelled.
\<close>

type_synonym float64 = real

text \<open>\<open>Box\<close>, the element bounding rect.\<close>

record Box =
  Top :: float64
  Left :: float64
  Width :: float64
  Height :: float64

text \<open>A \<open>proto.JSON\<close> value as the source reads it: through \<open>Bool()\<close> and \<open>String()\<close>.\<close>

record JSON =
  Bool :: bool
  String :: string

text \<open>\<open>proto.RuntimeRemoteObject\<close>: the value and the handle of the result.\<close>

record RuntimeRemoteObject =
  Value :: JSON
  Object_ObjectID :: string

text \<open>\<open>proto.DOMNode\<close>, the part \<open>ShadowRootE\<close> reads.\<close>

datatype DOMNode = DOMNode (BackendNodeID: int) (ShadowRoots: "DOMNode list")

text \<open>The \<open>Array\<close> of positional script arguments, each as its JSON text; \<open>nil\<close> is \<open>[]\<close>.\<close>

type_synonym Array = "string list"

text \<open>
  One entry of the log per call that leaves the element, with its arguments and what
  came back. \<open>Ev_Tick\<close> is a receive from the ticker's channel, \<open>Ev_Select\<close> the
  \<open>select\<close> between the ticker and \<open>ctx.Done()\<close> (\<open>None\<close>: the tick; \<open>Some e\<close>: the
  context is done and \<open>ctx.Err()\<close> is \<open>e\<close>). \<open>Ev_EnableDomain\<close> is the call of
  \<open>el.page.EnableDomain\<close> and \<open>Ev_Restore\<close> the call of the function it returned.
\<close>

datatype event =
    Ev_EvalE bool string Array "error + RuntimeRemoteObject"
  | Ev_DOMScrollIntoViewIfNeeded "error option"
  | Ev_DOMGetBoxModel "error + float64 list"
  | Ev_DOMDescribeNode int bool "error + DOMNode"
  | Ev_DOMResolveNode int "error + RuntimeRemoteObject"
  | Ev_Mouse_MoveE float64 float64 int "error option"
  | Ev_Mouse_ClickE string "error option"
  | Ev_Keyboard_InsertTextE string "error option"
  | Ev_Sleeper "error option"
  | Ev_Tick
  | Ev_Select "error option"
  | Ev_EnableDomain
  | Ev_Restore
  | Ev_frameID "error + string"
  | Ev_PageGetResourceContent string string "error + string \<times> bool"

type_synonym world = "event list"

text \<open>
  The collaborators of the element: the browser behind the protocol client, the input
  devices, the sleeper and the context. Each answers from the log so far and the
  arguments of the call, so the same call can be answered differently over time.
  \<open>jsHelper\<close> (the helper script registry) and \<open>DecodeString\<close>
  (\<open>base64.StdEncoding.DecodeString\<close>) are pure. Tracing and slow motion
  (\<open>tryTrace\<close>, \<open>trySlowmotion\<close>) are left out: they return nothing to the caller.
\<close>

record env =
  page_EvalE :: "world \<Rightarrow> bool \<Rightarrow> string \<Rightarrow> Array \<Rightarrow> error + RuntimeRemoteObject"
  DOMScrollIntoViewIfNeeded :: "world \<Rightarrow> error option"
  DOMGetBoxModel :: "world \<Rightarrow> error + float64 list"
  DOMDescribeNode :: "world \<Rightarrow> int \<Rightarrow> bool \<Rightarrow> error + DOMNode"
  DOMResolveNode :: "world \<Rightarrow> int \<Rightarrow> error + RuntimeRemoteObject"
  Mouse_MoveE :: "world \<Rightarrow> float64 \<Rightarrow> float64 \<Rightarrow> int \<Rightarrow> error option"
  Mouse_ClickE :: "world \<Rightarrow> string \<Rightarrow> error option"
  Keyboard_InsertTextE :: "world \<Rightarrow> string \<Rightarrow> error option"
  Sleeper :: "world \<Rightarrow> error option"
  ctx_Done :: "world \<Rightarrow> error option"
  page_frameID :: "world \<Rightarrow> error + string"
  PageGetResourceContent :: "world \<Rightarrow> string \<Rightarrow> string \<Rightarrow> error + string \<times> bool"
  jsHelper :: "string \<Rightarrow> Array \<Rightarrow> string \<times> Array"
  DecodeString :: "string \<Rightarrow> error + string"

text \<open>A Go panic, and the result of a function that can panic.\<close>

datatype panic = IndexOutOfRange nat nat | NonPositiveInterval | MustFailed error

datatype 'a outcome = Return 'a | Panic panic

subsection \<open>Evaluation, scrolling, focus\<close>

definition EvalE ::
  "env \<Rightarrow> bool \<Rightarrow> string \<Rightarrow> Array \<Rightarrow> world \<Rightarrow> (error + RuntimeRemoteObject) \<times> world" where
  "EvalE env byValue js params w =
     (let r = page_EvalE env w byValue js params
      in (r, w @ [Ev_EvalE byValue js params r]))"

definition ScrollIntoViewE :: "env \<Rightarrow> world \<Rightarrow> error option \<times> world" where
  "ScrollIntoViewE env w =
     (let r = DOMScrollIntoViewIfNeeded env w
      in (r, w @ [Ev_DOMScrollIntoViewIfNeeded r]))"

definition FocusE :: "env \<Rightarrow> world \<Rightarrow> error option \<times> world" where
  "FocusE env w =
     (case ScrollIntoViewE env w of
        (Some err, w1) \<Rightarrow> (Some err, w1)
      | (None, w1) \<Rightarrow>
          (case EvalE env True ''this.focus()'' [] w1 of
             (Inl err, w2) \<Rightarrow> (Some err, w2)
           | (Inr res, w2) \<Rightarrow> (None, w2)))"

subsection \<open>Waiting\<close>

text \<open>
  Modelled from the spec: \<open>kit.Retry(ctx, Sleeper(), fn)\<close>, whose source is not part of
  the repository's files. It is the spec's poll loop with "a fixed retry-with-sleep
  policy" that "terminates on true, on any evaluation error, or on cancellation of the
  execution scope": call \<open>fn\<close>; when it says stop, return its error; otherwise sleep,
  return the sleeper's error if the context ended the sleep, and go round again.
  \<open>None\<close> is a loop that never returns.
\<close>

partial_function (option) Retry ::
  "env \<Rightarrow> (world \<Rightarrow> (bool \<times> error option) \<times> world) \<Rightarrow> world \<Rightarrow> (error option \<times> world) option"
where
  "Retry env fn w =
     (case fn w of
        ((stop, err), w1) \<Rightarrow>
          if stop then Some (err, w1)
          else
            (let r = Sleeper env w1; w2 = w1 @ [Ev_Sleeper r]
             in case r of
                  Some e \<Rightarrow> Some (Some e, w2)
                | None \<Rightarrow> Retry env fn w2))"

text \<open>The function literal that \<open>WaitE\<close> hands to \<open>kit.Retry\<close>.\<close>

definition WaitE_fn ::
  "env \<Rightarrow> string \<Rightarrow> Array \<Rightarrow> world \<Rightarrow> (bool \<times> error option) \<times> world" where
  "WaitE_fn env js params w =
     (case EvalE env True js params w of
        (Inl err, w1) \<Rightarrow> ((True, Some err), w1)
      | (Inr res, w1) \<Rightarrow>
          if Bool (Value res) then ((True, None), w1)
          else ((False, None), w1))"

definition WaitE :: "env \<Rightarrow> string \<Rightarrow> Array \<Rightarrow> world \<Rightarrow> (error option \<times> world) option" where
  "WaitE env js params w = Retry env (WaitE_fn env js params) w"

definition WaitVisibleE :: "env \<Rightarrow> world \<Rightarrow> (error option \<times> world) option" where
  "WaitVisibleE env w =
     (case jsHelper env ''visible'' [] of (js, jsArgs) \<Rightarrow> WaitE env js jsArgs w)"

subsection \<open>Geometry\<close>

text \<open>The composite literal \<open>&Box{...}\<close> of \<open>BoxE\<close>. It reads \<open>Content[1]\<close>,
  \<open>Content[0]\<close>, \<open>Content[2]\<close>, \<open>Content[0]\<close>, \<open>Content[7]\<close>, \<open>Content[1]\<close> in this
  order; the first index that is out of range panics.\<close>

definition Box_literal :: "float64 list \<Rightarrow> Box outcome" where
  "Box_literal Content =
     (if length Content \<le> 1 then Panic (IndexOutOfRange 1 (length Content))
      else if length Content \<le> 2 then Panic (IndexOutOfRange 2 (length Content))
      else if length Content \<le> 7 then Panic (IndexOutOfRange 7 (length Content))
      else Return \<lparr>Top = Content ! 1,
                     Left = Content ! 0,
                     Width = Content ! 2 - Content ! 0,
                     Height = Content ! 7 - Content ! 1\<rparr>)"

definition BoxE :: "env \<Rightarrow> world \<Rightarrow> (error + Box) outcome \<times> world" where
  "BoxE env w =
     (let r = DOMGetBoxModel env w; w1 = w @ [Ev_DOMGetBoxModel r]
      in case r of
           Inl err \<Rightarrow> (Return (Inl err), w1)
         | Inr Content \<Rightarrow>
             (case Box_literal Content of
                Panic p \<Rightarrow> (Panic p, w1)
              | Return box \<Rightarrow> (Return (Inr box), w1)))"

subsection \<open>Interaction sequences\<close>

text \<open>\<open>ClickE\<close>. \<open>None\<close> is a run whose visibility wait never returns.\<close>

definition ClickE :: "env \<Rightarrow> string \<Rightarrow> world \<Rightarrow> (error option outcome \<times> world) option" where
  "ClickE env button w =
     (case WaitVisibleE env w of
        None \<Rightarrow> None
      | Some (Some err, w1) \<Rightarrow> Some (Return (Some err), w1)
      | Some (None, w1) \<Rightarrow>
          (case ScrollIntoViewE env w1 of
             (Some err, w2) \<Rightarrow> Some (Return (Some err), w2)
           | (None, w2) \<Rightarrow>
               (case BoxE env w2 of
                  (Panic p, w3) \<Rightarrow> Some (Panic p, w3)
                | (Return (Inl err), w3) \<Rightarrow> Some (Return (Some err), w3)
                | (Return (Inr box), w3) \<Rightarrow>
                    (let x = Left box + Width box / 2;
                         y = Top box + Height box / 2;
                         r = Mouse_MoveE env w3 x y 1;
                         w4 = w3 @ [Ev_Mouse_MoveE x y 1 r]
                     in case r of
                          Some err \<Rightarrow> Some (Return (Some err), w4)
                        | None \<Rightarrow>
                            (let c = Mouse_ClickE env w4 button
                             in Some (Return c, w4 @ [Ev_Mouse_ClickE button c]))))))"

text \<open>\<open>InputE\<close>.\<close>

definition InputE :: "env \<Rightarrow> string \<Rightarrow> world \<Rightarrow> (error option \<times> world) option" where
  "InputE env text w =
     (case WaitVisibleE env w of
        None \<Rightarrow> None
      | Some (Some err, w1) \<Rightarrow> Some (Some err, w1)
      | Some (None, w1) \<Rightarrow>
          (case FocusE env w1 of
             (Some err, w2) \<Rightarrow> Some (Some err, w2)
           | (None, w2) \<Rightarrow>
               (let r = Keyboard_InsertTextE env w2 text;
                    w3 = w2 @ [Ev_Keyboard_InsertTextE text r]
                in case r of
                     Some err \<Rightarrow> Some (Some err, w3)
                   | None \<Rightarrow>
                       (case jsHelper env ''inputEvent'' [] of
                          (js, jsArgs) \<Rightarrow>
                            (case EvalE env True js jsArgs w3 of
                               (Inl err, w4) \<Rightarrow> Some (Some err, w4)
                             | (Inr res, w4) \<Rightarrow> Some (None, w4))))))"

subsection \<open>Node description and the shadow root\<close>

definition DescribeE :: "env \<Rightarrow> int \<Rightarrow> bool \<Rightarrow> world \<Rightarrow> (error + DOMNode) \<times> world" where
  "DescribeE env depth pierce w =
     (let Depth = (if depth < 0 then - 1 else if depth = 0 then 1 else depth);
          r = DOMDescribeNode env w Depth pierce
      in (r, w @ [Ev_DOMDescribeNode Depth pierce r]))"

text \<open>\<open>ShadowRootE\<close>; the element it returns is given by its object id. The source
  indexes \<open>node.ShadowRoots[0]\<close> with no test of the length.\<close>

definition ShadowRootE :: "env \<Rightarrow> world \<Rightarrow> (error + string) outcome \<times> world" where
  "ShadowRootE env w =
     (case DescribeE env 1 False w of
        (Inl err, w1) \<Rightarrow> (Return (Inl err), w1)
      | (Inr node, w1) \<Rightarrow>
          (case ShadowRoots node of
             [] \<Rightarrow> (Panic (IndexOutOfRange 0 0), w1)
           | shadow # others \<Rightarrow>
               (let id = BackendNodeID shadow;
                    r = DOMResolveNode env w1 id;
                    w2 = w1 @ [Ev_DOMResolveNode id r]
                in case r of
                     Inl err \<Rightarrow> (Return (Inl err), w2)
                   | Inr shadowNode \<Rightarrow> (Return (Inr (Object_ObjectID shadowNode)), w2))))"

subsection \<open>Stability\<close>




subsection \<open>Resources\<close>

text \<open>What \<open>ResourceE\<close> does after its \<open>defer\<close> statement, up to its \<open>return\<close>.\<close>

definition ResourceE_body ::
  "env \<Rightarrow> RuntimeRemoteObject \<Rightarrow> world \<Rightarrow> (error + string) \<times> world" where
  "ResourceE_body env src w =
     (let f = page_frameID env w; w1 = w @ [Ev_frameID f]
      in case f of
           Inl err \<Rightarrow> (Inl err, w1)
         | Inr frameID \<Rightarrow>
             (let url = String (Value src);
                  r = PageGetResourceContent env w1 frameID url;
                  w2 = w1 @ [Ev_PageGetResourceContent frameID url r]
              in case r of
                   Inl err \<Rightarrow> (Inl err, w2)
                 | Inr (data, Base64Encoded) \<Rightarrow>
                     if Base64Encoded then
                       (case DecodeString env data of
                          Inl err \<Rightarrow> (Inl err, w2)
                        | Inr bin \<Rightarrow> (Inr bin, w2))
                     else (Inr data, w2)))"

text \<open>
  \<open>ResourceE\<close>. The statement \<open>defer el.page.EnableDomain(&proto.PageEnable{})()\<close>
  calls \<open>EnableDomain\<close> at once and defers the function it returns, which Go runs
  when \<open>ResourceE\<close> returns, whichever \<open>return\<close> is taken.
\<close>

definition ResourceE :: "env \<Rightarrow> world \<Rightarrow> (error + string) \<times> world" where
  "ResourceE env w =
     (case jsHelper env ''resource'' [] of
        (js, jsArgs) \<Rightarrow>
          (case EvalE env True js jsArgs w of
             (Inl err, w1) \<Rightarrow> (Inl err, w1)
           | (Inr src, w1) \<Rightarrow>
               (case ResourceE_body env src (w1 @ [Ev_EnableDomain]) of
                  (result, w2) \<Rightarrow> (result, w2 @ [Ev_Restore]))))"

subsection \<open>Readings of the log\<close>


text \<open>The error a logged call came back with, if any.\<close>

fun sum_error :: "error + 'a \<Rightarrow> error option" where
  "sum_error (Inl e) = Some e"
| "sum_error (Inr v) = None"

fun ev_error :: "event \<Rightarrow> error option" where
  "ev_error (Ev_EvalE byValue js params r) = sum_error r"
| "ev_error (Ev_DOMScrollIntoViewIfNeeded r) = r"
| "ev_error (Ev_DOMGetBoxModel r) = sum_error r"
| "ev_error (Ev_DOMDescribeNode depth pierce r) = sum_error r"
| "ev_error (Ev_DOMResolveNode n r) = sum_error r"
| "ev_error (Ev_Mouse_MoveE x y steps r) = r"
| "ev_error (Ev_Mouse_ClickE button r) = r"
| "ev_error (Ev_Keyboard_InsertTextE text r) = r"
| "ev_error (Ev_Sleeper r) = r"
| "ev_error Ev_Tick = None"
| "ev_error (Ev_Select r) = r"
| "ev_error Ev_EnableDomain = None"
| "ev_error Ev_Restore = None"
| "ev_error (Ev_frameID r) = sum_error r"
| "ev_error (Ev_PageGetResourceContent frameID url r) = sum_error r"

text \<open>A log of polls of \<open>js\<close> that each came back false and were each followed by a
  sleep that ran to its end.\<close>

fun retries :: "string \<Rightarrow> Array \<Rightarrow> world \<Rightarrow> bool" where
  "retries js params [] = True"
| "retries js params (Ev_EvalE byValue js' params' r # Ev_Sleeper s # evs) =
     (byValue \<and> js' = js \<and> params' = params
      \<and> (case r of Inl e \<Rightarrow> False | Inr res \<Rightarrow> \<not> Bool (Value res))
      \<and> s = None \<and> retries js params evs)"
| "retries js params evs = False"

text \<open>How a log of polls of \<open>js\<close> ends when the wait returns \<open>err\<close>: with a poll
  that came back true, with a poll that failed, or with a poll that came back false
  and a sleep that the context ended.\<close>

definition WaitE_final :: "string \<Rightarrow> Array \<Rightarrow> world \<Rightarrow> error option \<Rightarrow> bool" where
  "WaitE_final js params final err \<longleftrightarrow>
     (\<exists>res. final = [Ev_EvalE True js params (Inr res)] \<and> Bool (Value res) \<and> err = None)
   \<or> (\<exists>e. final = [Ev_EvalE True js params (Inl e)] \<and> err = Some e)
   \<or> (\<exists>res e. final = [Ev_EvalE True js params (Inr res), Ev_Sleeper (Some e)]
          \<and> \<not> Bool (Value res) \<and> err = Some e)"



subsection \<open>Concrete browsers\<close>

text \<open>The quadrilateral of the box \<open>{top: 10, left: 20, width: 100, height: 50}\<close>.\<close>

definition quad :: "float64 list" where
  "quad = [20, 10, 120, 10, 120, 60, 20, 60]"

definition true_object :: RuntimeRemoteObject where
  "true_object = \<lparr>Value = \<lparr>Bool = True, String = ''true''\<rparr>, Object_ObjectID = []\<rparr>"

definition false_object :: RuntimeRemoteObject where
  "false_object = \<lparr>Value = \<lparr>Bool = False, String = ''false''\<rparr>, Object_ObjectID = []\<rparr>"

text \<open>
  \<open>still_env\<close>: every call succeeds, every script evaluates to true, the element
  rests at \<open>quad\<close>, the described node has no shadow root, and the resource is
  reported as not base64-encoded.
\<close>

definition still_env :: env where
  "still_env =
     \<lparr>page_EvalE = (\<lambda>w byValue js params. Inr true_object),
      DOMScrollIntoViewIfNeeded = (\<lambda>w. None),
      DOMGetBoxModel = (\<lambda>w. Inr quad),
      DOMDescribeNode = (\<lambda>w depth pierce. Inr (DOMNode 7 [])),
      DOMResolveNode = (\<lambda>w n. Inr true_object),
      Mouse_MoveE = (\<lambda>w x y steps. None),
      Mouse_ClickE = (\<lambda>w button. None),
      Keyboard_InsertTextE = (\<lambda>w text. None),
      Sleeper = (\<lambda>w. None),
      ctx_Done = (\<lambda>w. None),
      page_frameID = (\<lambda>w. Inr ''frame''),
      PageGetResourceContent = (\<lambda>w frameID url. Inr (''raw bytes'', False)),
      jsHelper = (\<lambda>name params. (name, params)),
      DecodeString = (\<lambda>s. Inl (Err ''illegal base64 data''))\<rparr>"



text \<open>\<open>failing_fetch_env\<close>: as \<open>still_env\<close>, but the content fetch fails.\<close>

definition failing_fetch_env :: env where
  "failing_fetch_env =
     still_env\<lparr>PageGetResourceContent := (\<lambda>w frameID url. Inl (Err ''fetch failed''))\<rparr>"

text \<open>\<open>failing_focus_env\<close>: as \<open>still_env\<close>, but scrolling into view fails.\<close>

definition failing_focus_env :: env where
  "failing_focus_env =
     still_env\<lparr>DOMScrollIntoViewIfNeeded := (\<lambda>w. Some (Err ''node is detached''))\<rparr>"


text \<open>\<open>shadow_env\<close>: as \<open>still_env\<close>, but the described node has one shadow root.\<close>

definition shadow_env :: env where
  "shadow_env =
     still_env\<lparr>DOMDescribeNode := (\<lambda>w depth pierce. Inr (DOMNode 7 [DOMNode 8 []]))\<rparr>"

text \<open>\<open>failing_eval_env\<close>: as \<open>still_env\<close>, but every script evaluation fails.\<close>

definition failing_eval_env :: env where
  "failing_eval_env =
     still_env\<lparr>page_EvalE :=
       (\<lambda>w byValue js params. Inl (Err ''execution context was destroyed''))\<rparr>"

text \<open>\<open>hidden_env\<close>: as \<open>still_env\<close>, but every script evaluates to false;
  \<open>canceled_hidden_env\<close>: moreover the context ends every sleep.\<close>

definition hidden_env :: env where
  "hidden_env = still_env\<lparr>page_EvalE := (\<lambda>w byValue js params. Inr false_object)\<rparr>"

definition canceled_hidden_env :: env where
  "canceled_hidden_env = hidden_env\<lparr>Sleeper := (\<lambda>w. Some Canceled)\<rparr>"

text \<open>\<open>failing_insert_env\<close>: as \<open>still_env\<close>, but inserting text fails.\<close>

definition failing_insert_env :: env where
  "failing_insert_env =
     still_env\<lparr>Keyboard_InsertTextE := (\<lambda>w text. Some (Err ''target closed''))\<rparr>"

subsection \<open>Chains of calls\<close>

text \<open>
  \<open>chain_run chain steps err\<close>: of the calls of \<open>chain\<close>, in this order, exactly the
  first \<open>k\<close> were made (\<open>steps\<close>), with \<open>k\<close> at least one; the calls before the last one
  made came back without error; \<open>err\<close> is what the last one made came back with; and
  the chain was cut short only by an error.
\<close>

definition chain_run :: "world \<Rightarrow> world \<Rightarrow> error option \<Rightarrow> bool" where
  "chain_run chain steps err \<longleftrightarrow>
     (\<exists>k. 1 \<le> k \<and> k \<le> length chain \<and> steps = take k chain
          \<and> (\<forall>i < k - 1. ev_error (chain ! i) = None)
          \<and> err = ev_error (chain ! (k - 1))
          \<and> (k < length chain \<longrightarrow> err \<noteq> None))"

subsection \<open>Runs of the stability loop\<close>


section \<open>Theorems: frame resolution\<close>

subsection \<open>Readings of the call log over concatenation\<close>

lemma visited_append: "visited (xs @ ys) = visited xs @ visited ys"
  by (induction xs rule: visited.induct) simp_all
lemma released_append: "released (xs @ ys) = released xs @ released ys"
  by (induction xs rule: released.induct) simp_all
lemma matched_append: "matched (xs @ ys) = matched xs @ matched ys"
  by (induction xs rule: matched.induct) (simp_all split: sum.splits)
lemma failed_append: "failed (xs @ ys) = failed xs @ failed ys"
  by (induction xs rule: failed.induct) (simp_all split: sum.splits)
lemma unmatched_append: "unmatched (xs @ ys) = unmatched xs @ unmatched ys"
  by (induction xs rule: unmatched.induct) (simp_all split: sum.splits)

lemma visited_split:
  "mset (visited cs) = mset (matched cs) + mset (failed cs) + mset (unmatched cs)"
  by (induction cs rule: visited.induct) (simp_all split: sum.splits)

lemma mset_sub_widen: "X \<subseteq># add_mset a M \<Longrightarrow> X \<subseteq># add_mset a (M + N)"
proof -
  assume "X \<subseteq># add_mset a M"
  moreover have "add_mset a M \<subseteq># add_mset a M + N" by simp
  ultimately have "X \<subseteq># add_mset a M + N" by (rule subset_mset.order_trans)
  then show ?thesis by simp
qed

lemma mset_sub_join:
  "X \<subseteq># add_mset a M \<Longrightarrow> Y \<subseteq># N \<Longrightarrow> X + Y \<subseteq># add_mset a (M + N)"
proof -
  assume "X \<subseteq># add_mset a M" "Y \<subseteq># N"
  then have "X + Y \<subseteq># add_mset a M + N" by (rule subset_mset.add_mono)
  then show ?thesis by simp
qed

lemma walk_calls_aux:
  "\<exists>new. calls (snd (walk pg s)) = calls s @ new \<and> walk_inv (handles pg) new"
  "\<exists>new. calls (snd (walk_range fs s)) = calls s @ new \<and> walk_inv (handles_list fs) new"
proof (induction pg s and fs s rule: walk_walk_range.induct)
  case (1 r list lerr s)
  then show ?case by (cases lerr) (auto simp: walk_inv_def)
next
  case (2 s)
  then show ?case by (simp add: walk_inv_def)
next
  case (3 oid p rel rest s)
  define c where "c = Call_resolveNode oid (resolveNode p)"
  define s1 where "s1 = s\<lparr>calls := calls s @ [c]\<rparr>"
  show ?case
  proof (cases "resolveNode p")
    case (Inl e)
    then have "calls (snd (walk_range (Element oid p rel # rest) s)) = calls s @ [c]"
      by (simp add: c_def)
    moreover have "walk_inv (handles_list (Element oid p rel # rest)) [c]"
      using Inl by (simp add: walk_inv_def c_def)
    ultimately show ?thesis by blast
  next
    case (Inr objID)
    show ?thesis
    proof (cases "objID = []")
      case False
      then have "calls (snd (walk_range (Element oid p rel # rest) s)) = calls s @ [c]"
        using Inr by (simp add: c_def)
      moreover have "walk_inv (handles_list (Element oid p rel # rest)) [c]"
        using Inr False by (simp add: walk_inv_def c_def)
      ultimately show ?thesis by blast
    next
      case True
      obtain err s2 where w: "walk p s1 = (err, s2)" by (cases "walk p s1")
      from "3.IH"(1)[of s1 objID, OF s1_def[unfolded c_def] Inr] True
      obtain n1 where n1: "calls (snd (walk p s1)) = calls s1 @ n1" "walk_inv (handles p) n1"
        by auto
      define s3 where "s3 = s2\<lparr>calls := calls s2 @ [Call_ReleaseE oid]\<rparr>"
      have c3: "calls s3 = calls s @ c # n1 @ [Call_ReleaseE oid]"
        using n1(1) w by (simp add: s3_def s1_def)
      have inv3: "walk_inv (oid # handles p) (c # n1 @ [Call_ReleaseE oid])"
        using n1(2) Inr True
        by (simp add: walk_inv_def c_def released_append unmatched_append visited_append)
      show ?thesis
      proof (cases rel)
        case (Some e)
        then have "snd (walk_range (Element oid p rel # rest) s) = s3"
          using Inr True w by (simp add: s3_def s1_def c_def)
        moreover have "walk_inv (handles_list (Element oid p rel # rest)) (c # n1 @ [Call_ReleaseE oid])"
          using inv3 unfolding walk_inv_def
          by (simp add: mset_sub_widen)
        ultimately show ?thesis using c3 by auto
      next
        case None
        then have eq: "walk_range (Element oid p rel # rest) s = walk_range rest s3"
          using Inr True w by (simp add: s3_def s1_def c_def)
        have "\<exists>new. calls (snd (walk_range rest s3)) = calls s3 @ new \<and>
                 walk_inv (handles_list rest) new"
        proof (rule "3.IH"(2)[where x = s1 and b = objID and xa = err and y = s2 and xb = rel])
          show "s1 = s\<lparr>calls := calls s @ [Call_resolveNode oid (resolveNode p)]\<rparr>"
            by (simp add: s1_def c_def)
        qed (use Inr True w None in \<open>simp_all add: s3_def\<close>)
        then obtain n2 where n2: "calls (snd (walk_range rest s3)) = calls s3 @ n2"
            "walk_inv (handles_list rest) n2"
          by blast
        have "calls (snd (walk_range (Element oid p rel # rest) s))
              = calls s @ (c # n1 @ [Call_ReleaseE oid]) @ n2"
          using eq n2(1) c3 by simp
        moreover have "walk_inv (handles_list (Element oid p rel # rest))
                         ((c # n1 @ [Call_ReleaseE oid]) @ n2)"
        proof -
          let ?a = "c # n1 @ [Call_ReleaseE oid]"
          have "mset (visited ?a) + mset (visited n2)
                  \<subseteq># add_mset oid (mset (handles p) + mset (handles_list rest))"
            using inv3 n2(2) unfolding walk_inv_def by (intro mset_sub_join) simp_all
          moreover have "mset (released ?a) + mset (released n2)
                  = mset (unmatched ?a) + mset (unmatched n2)"
            using inv3 n2(2) unfolding walk_inv_def by simp
          ultimately show ?thesis
            unfolding walk_inv_def released_append unmatched_append visited_append
            by simp
        qed
        ultimately show ?thesis by blast
      qed
    qed
  qed
qed

lemma walk_calls_inv: "walk_inv (handles pg) (walk_calls pg s)"
proof -
  obtain new where "calls (snd (walk pg s)) = calls s @ new" "walk_inv (handles pg) new"
    using walk_calls_aux(1) by blast
  then show ?thesis by (simp add: walk_calls_def)
qed

lemma distinct_visited_disjoint:
  assumes "mset (visited cs) \<subseteq># mset hs" and "distinct hs"
    and "mset (released cs) = mset (unmatched cs)"
  shows "set (released cs) \<inter> (set (matched cs) \<union> set (failed cs)) = {}"
proof -
  have le1: "count (mset (visited cs)) h \<le> 1" for h
  proof -
    have "count (mset (visited cs)) h \<le> count (mset hs) h"
      using assms(1) by (rule mset_subset_eq_count)
    also have "\<dots> \<le> 1"
      using assms(2) by (simp add: distinct_count_atmost_1)
    finally show ?thesis .
  qed
  have "h \<notin> set (matched cs) \<union> set (failed cs)" if "h \<in> set (released cs)" for h
  proof
    assume "h \<in> set (matched cs) \<union> set (failed cs)"
    then have "h \<in># mset (matched cs) + mset (failed cs)"
      by simp
    then have a: "0 < count (mset (matched cs) + mset (failed cs)) h"
      by (rule count_greater_zero_iff[THEN iffD2])
    have "h \<in># mset (unmatched cs)"
      using that assms(3)[symmetric] by simp
    then have b: "0 < count (mset (unmatched cs)) h"
      by (rule count_greater_zero_iff[THEN iffD2])
    have c: "count (mset (visited cs)) h
               = count (mset (matched cs) + mset (failed cs)) h + count (mset (unmatched cs)) h"
      by (simp only: visited_split count_union)
    from a b c le1[of h] show False by linarith
  qed
  then show ?thesis by blast
qed

subsection \<open>What a run does to the element\<close>

lemma bindings_append: "bindings (xs @ ys) = bindings xs @ bindings ys"
  by (induction xs rule: bindings.induct) (simp_all split: sum.splits)

lemma matched_bindings: "matched cs = map fst (bindings cs)"
  by (induction cs rule: bindings.induct) (simp_all split: sum.splits)

lemma rebound_trans:
  assumes "rebound s a s1" and "rebound s1 b s2"
  shows "rebound s (a @ b) s2"
proof (cases "bindings b")
  case Nil
  then show ?thesis
    using assms by (cases "bindings a") (simp_all add: rebound_def bindings_append)
next
  case (Cons x xs)
  then show ?thesis
    using assms by (cases "bindings a") (simp_all add: rebound_def bindings_append)
qed

lemma walk_rebound_aux:
  "\<exists>new. calls (snd (walk pg s)) = calls s @ new \<and> rebound s new (snd (walk pg s))"
  "\<exists>new. calls (snd (walk_range fs s)) = calls s @ new \<and> rebound s new (snd (walk_range fs s))"
proof (induction pg s and fs s rule: walk_walk_range.induct)
  case (1 r list lerr s)
  then show ?case by (cases lerr) (auto simp: rebound_def)
next
  case (2 s)
  then show ?case by (simp add: rebound_def)
next
  case (3 oid p rel rest s)
  define c where "c = Call_resolveNode oid (resolveNode p)"
  define s1 where "s1 = s\<lparr>calls := calls s @ [c]\<rparr>"
  show ?case
  proof (cases "resolveNode p")
    case (Inl e)
    then have "snd (walk_range (Element oid p rel # rest) s) = s1"
      by (simp add: c_def s1_def)
    moreover have "rebound s [c] s1"
      using Inl by (simp add: rebound_def c_def s1_def)
    ultimately show ?thesis by (auto simp: s1_def)
  next
    case (Inr objID)
    show ?thesis
    proof (cases "objID = []")
      case False
      then have "snd (walk_range (Element oid p rel # rest) s)
                   = s1\<lparr>el_page := p, el_ObjectID := objID\<rparr>"
        using Inr by (simp add: c_def s1_def)
      moreover have "rebound s [c] (s1\<lparr>el_page := p, el_ObjectID := objID\<rparr>)"
        using Inr False by (simp add: rebound_def c_def s1_def)
      ultimately show ?thesis by (auto simp: s1_def)
    next
      case True
      obtain err s2 where w: "walk p s1 = (err, s2)" by (cases "walk p s1")
      have "\<exists>new. calls (snd (walk p s1)) = calls s1 @ new \<and> rebound s1 new (snd (walk p s1))"
      proof (rule "3.IH"(1)[where x = s1 and b = objID])
        show "s1 = s\<lparr>calls := calls s @ [Call_resolveNode oid (resolveNode p)]\<rparr>"
          by (simp add: s1_def c_def)
      qed (use Inr True in simp_all)
      then obtain n1 where n1: "calls s2 = calls s1 @ n1" "rebound s1 n1 s2"
        using w by auto
      define s3 where "s3 = s2\<lparr>calls := calls s2 @ [Call_ReleaseE oid]\<rparr>"
      have c3: "calls s3 = calls s @ c # n1 @ [Call_ReleaseE oid]"
        using n1(1) by (simp add: s3_def s1_def)
      have "rebound s [c] s1"
        using Inr True by (simp add: rebound_def c_def s1_def)
      moreover have "rebound s2 [Call_ReleaseE oid] s3"
        by (simp add: rebound_def s3_def)
      ultimately have r3: "rebound s (c # n1 @ [Call_ReleaseE oid]) s3"
        using rebound_trans[OF rebound_trans[OF _ n1(2)], of s "[c]" "[Call_ReleaseE oid]" s3]
        by simp
      show ?thesis
      proof (cases rel)
        case (Some e)
        then have "snd (walk_range (Element oid p rel # rest) s) = s3"
          using Inr True w by (simp add: s3_def s1_def c_def)
        then show ?thesis using c3 r3 by auto
      next
        case None
        then have eq: "walk_range (Element oid p rel # rest) s = walk_range rest s3"
          using Inr True w by (simp add: s3_def s1_def c_def)
        have "\<exists>new. calls (snd (walk_range rest s3)) = calls s3 @ new \<and>
                 rebound s3 new (snd (walk_range rest s3))"
        proof (rule "3.IH"(2)[where x = s1 and b = objID and xa = err and y = s2 and xb = rel])
          show "s1 = s\<lparr>calls := calls s @ [Call_resolveNode oid (resolveNode p)]\<rparr>"
            by (simp add: s1_def c_def)
        qed (use Inr True w None in \<open>simp_all add: s3_def\<close>)
        then obtain n2 where n2: "calls (snd (walk_range rest s3)) = calls s3 @ n2"
            "rebound s3 n2 (snd (walk_range rest s3))"
          by blast
        have "calls (snd (walk_range (Element oid p rel # rest) s))
              = calls s @ (c # n1 @ [Call_ReleaseE oid]) @ n2"
          using eq n2(1) c3 by simp
        moreover have "rebound s ((c # n1 @ [Call_ReleaseE oid]) @ n2)
                         (snd (walk_range (Element oid p rel # rest) s))"
          unfolding eq using r3 n2(2) by (rule rebound_trans)
        ultimately show ?thesis by blast
      qed
    qed
  qed
qed

lemma walk_calls_rebound: "rebound s (walk_calls pg s) (snd (walk pg s))"
proof -
  obtain new where "calls (snd (walk pg s)) = calls s @ new" "rebound s new (snd (walk pg s))"
    using walk_rebound_aux(1) by blast
  then show ?thesis by (simp add: walk_calls_def)
qed

text \<open>
  C1. The claim: once the walk finds the first frame in which the node resolves, it
  rebinds the element and stops the whole search, at whatever depth the match is. The
  code at \<open>nested_tree\<close>, where the node resolves only in \<open>A1\<close>, the child of the first
  iframe \<open>A\<close>: after the match in \<open>A1\<close> the walk releases \<open>A\<close> and goes on to visit and
  release the sibling \<open>B\<close>. At \<open>nested_tree2\<close>, where the node resolves in \<open>B\<close> too, the
  element ends bound to \<open>B\<close>, the second match.
\<close>

theorem ensureParentPage_continues_after_nested_match:
  "ensureParentPage (Inr False) (stale nested_tree) =
     (None, \<lparr>el_page = Page (Inr ''obj'') [] None, el_ObjectID = ''obj'',
        calls = [Call_resolveNode ''A'' (Inr []), Call_resolveNode ''A1'' (Inr ''obj''),
                 Call_ReleaseE ''A'', Call_resolveNode ''B'' (Inr []), Call_ReleaseE ''B'']\<rparr>)
   \<and> ensureParentPage (Inr False) (stale nested_tree2) =
     (None, \<lparr>el_page = Page (Inr ''objB'') [] None, el_ObjectID = ''objB'',
        calls = [Call_resolveNode ''A'' (Inr []), Call_resolveNode ''A1'' (Inr ''obj''),
                 Call_ReleaseE ''A'', Call_resolveNode ''B'' (Inr ''objB'')]\<rparr>)"
  by (simp add: ensureParentPage_def stale_def nested_tree_def nested_tree2_def leaf_def)

text \<open>
  C2, as claimed, fails in two ways. At \<open>failing_tree\<close> the node resolution in the
  one iframe \<open>A\<close> fails: the walk returns the error, \<open>A\<close> was visited and is not
  released, and the element is not rebound. At \<open>sibling_tree\<close> the call of \<open>ElementsE\<close>
  on the root lists \<open>A\<close>, \<open>B\<close> and \<open>C\<close>; the walk stops at the match in \<open>B\<close>, so the
  handle of \<open>C\<close>, which was created and is not the new owner, is never released.
\<close>

theorem walk_leaves_handles_unreleased:
  "fst (walk failing_tree (stale failing_tree)) = Some (Err ''resolve failed'')
   \<and> visited (walk_calls failing_tree (stale failing_tree)) = [''A'']
   \<and> released (walk_calls failing_tree (stale failing_tree)) = []
   \<and> el_ObjectID (snd (walk failing_tree (stale failing_tree))) = ''stale''
   \<and> ElementsE_err sibling_tree = None
   \<and> map ObjectID (ElementsE_list sibling_tree) = [''A'', ''B'', ''C'']
   \<and> fst (walk sibling_tree (stale sibling_tree)) = Some EOF
   \<and> walk_calls sibling_tree (stale sibling_tree) =
        [Call_resolveNode ''A'' (Inr []), Call_resolveNode ''A1'' (Inr []),
         Call_ReleaseE ''A1'', Call_ReleaseE ''A'', Call_resolveNode ''B'' (Inr ''obj'')]
   \<and> el_ObjectID (snd (walk sibling_tree (stale sibling_tree))) = ''obj''
   \<and> ''C'' \<notin> set (released (walk_calls sibling_tree (stale sibling_tree)))"
  by (simp add: walk_calls_def stale_def failing_tree_def sibling_tree_def leaf_def)

text \<open>
  C2, amended. In every run of the walk in which no node resolution fails and at most
  one visited iframe resolves the node, every iframe the walk visited is released
  exactly once before the walk returns, except the iframe selected as the new owner:
  the released handles together with the match are the visited handles. Without a
  match the element is left as it was. With a match in \<open>h\<close>, the element is bound to
  the object id that the resolution in \<open>h\<close> returned, in a page where the node resolves
  to it; exactly N - 1 release calls occur for N visits; and when the handles of the
  tree are distinct, \<open>h\<close> is never released by the walk. Runs with more than one match
  are left out: they exist only because the result of the inner walk is dropped (C1).
\<close>

theorem walk_releases_visited_but_owner:
  assumes "failed (walk_calls pg s) = []"
    and "length (matched (walk_calls pg s)) \<le> 1"
  shows "mset (released (walk_calls pg s)) + mset (matched (walk_calls pg s))
           = mset (visited (walk_calls pg s))
       \<and> (matched (walk_calls pg s) = []
            \<longrightarrow> el_ObjectID (snd (walk pg s)) = el_ObjectID s
                \<and> el_page (snd (walk pg s)) = el_page s)
       \<and> (\<forall>h. matched (walk_calls pg s) = [h]
            \<longrightarrow> (\<exists>objID. bindings (walk_calls pg s) = [(h, objID)]
                    \<and> el_ObjectID (snd (walk pg s)) = objID
                    \<and> resolveNode (el_page (snd (walk pg s))) = Inr objID)
                \<and> length (released (walk_calls pg s)) = length (visited (walk_calls pg s)) - 1
                \<and> (distinct (handles pg) \<longrightarrow> h \<notin> set (released (walk_calls pg s))))"
proof -
  let ?cs = "walk_calls pg s"
  let ?s' = "snd (walk pg s)"
  have inv: "mset (released ?cs) = mset (unmatched ?cs)"
    and sub: "mset (visited ?cs) \<subseteq># mset (handles pg)"
    using walk_calls_inv[of pg s] by (simp_all add: walk_inv_def)
  have all: "mset (released ?cs) + mset (matched ?cs) = mset (visited ?cs)"
    using inv assms(1) by (simp add: visited_split)
  have reb: "rebound s ?cs ?s'"
    by (rule walk_calls_rebound)
  have none: "el_ObjectID ?s' = el_ObjectID s \<and> el_page ?s' = el_page s"
    if "matched ?cs = []"
  proof -
    from that have "bindings ?cs = []" by (simp add: matched_bindings)
    with reb show ?thesis by (simp add: rebound_def)
  qed
  have one: "(\<exists>objID. bindings ?cs = [(h, objID)]
                \<and> el_ObjectID ?s' = objID
                \<and> resolveNode (el_page ?s') = Inr objID)
             \<and> length (released ?cs) = length (visited ?cs) - 1
             \<and> (distinct (handles pg) \<longrightarrow> h \<notin> set (released ?cs))"
    if m: "matched ?cs = [h]" for h
  proof (intro conjI impI)
    from m obtain objID where b: "bindings ?cs = [(h, objID)]"
      by (auto simp: matched_bindings map_eq_Cons_conv)
    with reb show "\<exists>objID. bindings ?cs = [(h, objID)]
                \<and> el_ObjectID ?s' = objID
                \<and> resolveNode (el_page ?s') = Inr objID"
      by (simp add: rebound_def)
    have "size (mset (released ?cs) + mset (matched ?cs)) = size (mset (visited ?cs))"
      using all by simp
    then show "length (released ?cs) = length (visited ?cs) - 1"
      using m by simp
    show "h \<notin> set (released ?cs)" if d: "distinct (handles pg)"
    proof -
      have "set (released ?cs) \<inter> (set (matched ?cs) \<union> set (failed ?cs)) = {}"
        using distinct_visited_disjoint[OF sub d inv] .
      then show ?thesis using m by auto
    qed
  qed
  show ?thesis using all none one by blast
qed

theorem walk_releases_visited_but_owner_witness:
  "failed (walk_calls sibling_tree (stale sibling_tree)) = []
   \<and> length (matched (walk_calls sibling_tree (stale sibling_tree))) \<le> 1
   \<and> matched (walk_calls sibling_tree (stale sibling_tree)) = [''B'']
   \<and> distinct (handles sibling_tree)
   \<and> visited (walk_calls sibling_tree (stale sibling_tree)) = [''A'', ''A1'', ''B'']
   \<and> released (walk_calls sibling_tree (stale sibling_tree)) = [''A1'', ''A'']
   \<and> mset (released (walk_calls sibling_tree (stale sibling_tree))) + {#''B''#}
        = mset (visited (walk_calls sibling_tree (stale sibling_tree)))
   \<and> length (released (walk_calls sibling_tree (stale sibling_tree)))
        = length (visited (walk_calls sibling_tree (stale sibling_tree))) - 1
   \<and> ''B'' \<notin> set (released (walk_calls sibling_tree (stale sibling_tree)))
   \<and> el_ObjectID (snd (walk sibling_tree (stale sibling_tree))) = ''obj''"
proof -
  have c: "walk_calls sibling_tree (stale sibling_tree) =
        [Call_resolveNode ''A'' (Inr []), Call_resolveNode ''A1'' (Inr []),
         Call_ReleaseE ''A1'', Call_ReleaseE ''A'', Call_resolveNode ''B'' (Inr ''obj'')]"
    by (simp add: walk_calls_def stale_def sibling_tree_def leaf_def)
  have f: "failed (walk_calls sibling_tree (stale sibling_tree)) = []"
    and m: "length (matched (walk_calls sibling_tree (stale sibling_tree))) \<le> 1"
    unfolding c by simp_all
  have h: "distinct (handles sibling_tree)"
    by (simp add: sibling_tree_def leaf_def)
  have e: "el_ObjectID (snd (walk sibling_tree (stale sibling_tree))) = ''obj''"
    by (simp add: stale_def sibling_tree_def leaf_def)
  show ?thesis
    using walk_releases_visited_but_owner[OF f m] h e
    unfolding c by simp
qed

section \<open>Theorems: element operations\<close>

subsection \<open>The calls, one equation each\<close>

lemma EvalE_eq:
  "EvalE env byValue js params w =
     (page_EvalE env w byValue js params,
      w @ [Ev_EvalE byValue js params (page_EvalE env w byValue js params)])"
  by (simp add: EvalE_def Let_def)

lemma ScrollIntoViewE_eq:
  "ScrollIntoViewE env w =
     (DOMScrollIntoViewIfNeeded env w,
      w @ [Ev_DOMScrollIntoViewIfNeeded (DOMScrollIntoViewIfNeeded env w)])"
  by (simp add: ScrollIntoViewE_def Let_def)

lemma FocusE_eq:
  "FocusE env w =
     (case DOMScrollIntoViewIfNeeded env w of
        Some err \<Rightarrow> (Some err, w @ [Ev_DOMScrollIntoViewIfNeeded (Some err)])
      | None \<Rightarrow>
          (sum_error (page_EvalE env (w @ [Ev_DOMScrollIntoViewIfNeeded None]) True ''this.focus()'' []),
           w @ [Ev_DOMScrollIntoViewIfNeeded None,
                Ev_EvalE True ''this.focus()'' []
                  (page_EvalE env (w @ [Ev_DOMScrollIntoViewIfNeeded None]) True ''this.focus()'' [])]))"
  by (simp add: FocusE_def ScrollIntoViewE_eq EvalE_eq split: option.splits sum.splits)

lemma BoxE_eq:
  "BoxE env w =
     (case DOMGetBoxModel env w of
        Inl err \<Rightarrow> Return (Inl err)
      | Inr Content \<Rightarrow>
          (case Box_literal Content of Panic p \<Rightarrow> Panic p | Return box \<Rightarrow> Return (Inr box)),
      w @ [Ev_DOMGetBoxModel (DOMGetBoxModel env w)])"
  by (simp add: BoxE_def Let_def split: sum.splits outcome.splits)


subsection \<open>The poll loop\<close>

lemma WaitE_unfold:
  "WaitE env js params w =
     (let r = page_EvalE env w True js params; w1 = w @ [Ev_EvalE True js params r]
      in case r of
           Inl err \<Rightarrow> Some (Some err, w1)
         | Inr res \<Rightarrow>
             if Bool (Value res) then Some (None, w1)
             else (case Sleeper env w1 of
                     Some e \<Rightarrow> Some (Some e, w1 @ [Ev_Sleeper (Some e)])
                   | None \<Rightarrow> WaitE env js params (w1 @ [Ev_Sleeper None])))"
  unfolding WaitE_def
  by (subst Retry.simps)
     (simp add: WaitE_fn_def EvalE_eq Let_def split: sum.splits option.splits)

lemma WaitE_true:
  "page_EvalE env w True js params = Inr res \<Longrightarrow> Bool (Value res)
     \<Longrightarrow> WaitE env js params w = Some (None, w @ [Ev_EvalE True js params (Inr res)])"
  by (subst WaitE_unfold) simp

lemma Retry_WaitE_log:
  assumes "Retry env fn w = Some y"
  shows "fn = WaitE_fn env js params \<longrightarrow>
         (\<exists>pre final. snd y = w @ pre @ final \<and> retries js params pre
            \<and> WaitE_final js params final (fst y))"
proof (rule Retry.raw_induct[OF _ assms,
    where P = "\<lambda>env fn w y. fn = WaitE_fn env js params \<longrightarrow>
         (\<exists>pre final. snd y = w @ pre @ final \<and> retries js params pre
            \<and> WaitE_final js params final (fst y))"])
  fix Retry' env fn w y
  assume IH: "\<And>env fn w y. Retry' env fn w = Some y \<Longrightarrow>
         fn = WaitE_fn env js params \<longrightarrow>
         (\<exists>pre final. snd y = w @ pre @ final \<and> retries js params pre
            \<and> WaitE_final js params final (fst y))"
    and hyps: "(case fn w of
        ((stop, err), w1) \<Rightarrow>
          if stop then Some (err, w1)
          else let r = Sleeper env w1; w2 = w1 @ [Ev_Sleeper r]
               in case r of None \<Rightarrow> Retry' env fn w2
                  | Some e \<Rightarrow> Some (Some e, w2)) = Some y"
  show "fn = WaitE_fn env js params \<longrightarrow>
         (\<exists>pre final. snd y = w @ pre @ final \<and> retries js params pre
            \<and> WaitE_final js params final (fst y))"
  proof
    assume fn: "fn = WaitE_fn env js params"
    define r where "r = page_EvalE env w True js params"
    define w1 where "w1 = w @ [Ev_EvalE True js params r]"
    show "\<exists>pre final. snd y = w @ pre @ final \<and> retries js params pre
            \<and> WaitE_final js params final (fst y)"
    proof (cases r)
      case (Inl e)
      then have "y = (Some e, w1)"
        using hyps by (simp add: fn WaitE_fn_def EvalE_eq r_def[symmetric] w1_def)
      then have "snd y = w @ [] @ [Ev_EvalE True js params (Inl e)]"
        and "WaitE_final js params [Ev_EvalE True js params (Inl e)] (fst y)"
        using Inl by (simp_all add: w1_def WaitE_final_def)
      then show ?thesis by (metis retries.simps(1))
    next
      case (Inr res)
      show ?thesis
      proof (cases "Bool (Value res)")
        case True
        then have "y = (None, w1)"
          using hyps Inr by (simp add: fn WaitE_fn_def EvalE_eq r_def[symmetric] w1_def)
        then have "snd y = w @ [] @ [Ev_EvalE True js params (Inr res)]"
          and "WaitE_final js params [Ev_EvalE True js params (Inr res)] (fst y)"
          using Inr True by (simp_all add: w1_def WaitE_final_def)
        then show ?thesis by (metis retries.simps(1))
      next
        case False
        have w1': "w1 = w @ [Ev_EvalE True js params (Inr res)]"
          using Inr by (simp add: w1_def)
        have r': "page_EvalE env w True js params = Inr res"
          using Inr by (simp add: r_def)
        show ?thesis
        proof (cases "Sleeper env w1")
          case (Some e)
          then have "y = (Some e, w1 @ [Ev_Sleeper (Some e)])"
            using hyps False unfolding w1'
            by (simp add: fn WaitE_fn_def EvalE_eq r' Let_def)
          then have "snd y = w @ [] @ [Ev_EvalE True js params (Inr res), Ev_Sleeper (Some e)]"
            and "WaitE_final js params [Ev_EvalE True js params (Inr res), Ev_Sleeper (Some e)] (fst y)"
            using False by (simp_all add: w1' WaitE_final_def)
          then show ?thesis by (metis retries.simps(1))
        next
          case None
          define w2 where "w2 = w1 @ [Ev_Sleeper None]"
          have "Retry' env fn w2 = Some y"
            using hyps False None unfolding w1' w2_def
            by (simp add: fn WaitE_fn_def EvalE_eq r' Let_def)
          from IH[OF this] fn obtain pre final where
            pf: "snd y = w2 @ pre @ final" "retries js params pre"
                "WaitE_final js params final (fst y)"
            by blast
          let ?pre = "Ev_EvalE True js params (Inr res) # Ev_Sleeper None # pre"
          have "snd y = w @ ?pre @ final"
            using pf(1) by (simp add: w2_def w1')
          moreover have "retries js params ?pre"
            using pf(2) False by simp
          ultimately show ?thesis using pf(3) by blast
        qed
      qed
    qed
  qed
qed

lemma WaitE_false_diverges:
  assumes f: "\<forall>v. \<exists>res. page_EvalE env v True js params = Inr res \<and> \<not> Bool (Value res)"
    and s: "\<forall>v. Sleeper env v = None"
  shows "WaitE env js params w = None"
proof (rule ccontr)
  assume "WaitE env js params w \<noteq> None"
  then obtain y where y: "Retry env (WaitE_fn env js params) w = Some y"
    by (auto simp: WaitE_def)
  have "env = env \<and> WaitE_fn env js params = WaitE_fn env js params \<longrightarrow> False"
  proof (rule Retry.raw_induct[OF _ y,
      where P = "\<lambda>env' fn w y. env' = env \<and> fn = WaitE_fn env js params \<longrightarrow> False"])
    fix Retry' env' fn w y
    assume IH: "\<And>env' fn w y. Retry' env' fn w = Some y \<Longrightarrow>
                  env' = env \<and> fn = WaitE_fn env js params \<longrightarrow> False"
      and hyps: "(case fn w of
        ((stop, err), w1) \<Rightarrow>
          if stop then Some (err, w1)
          else let r = Sleeper env' w1; w2 = w1 @ [Ev_Sleeper r]
               in case r of None \<Rightarrow> Retry' env' fn w2
                  | Some e \<Rightarrow> Some (Some e, w2)) = Some y"
    show "env' = env \<and> fn = WaitE_fn env js params \<longrightarrow> False"
    proof
      assume a: "env' = env \<and> fn = WaitE_fn env js params"
      from f obtain res where res: "page_EvalE env w True js params = Inr res"
        "\<not> Bool (Value res)" by blast
      have "Retry' env fn (w @ [Ev_EvalE True js params (Inr res), Ev_Sleeper None]) = Some y"
        using hyps a res s by (simp add: WaitE_fn_def EvalE_eq Let_def)
      from IH[OF this] a show False by simp
    qed
  qed
  then show False by simp
qed

lemma still_WaitE:
  "WaitE still_env js params w = Some (None, w @ [Ev_EvalE True js params (Inr true_object)])"
  by (subst WaitE_unfold) (simp add: still_env_def true_object_def)

lemma failing_WaitE:
  "WaitE failing_eval_env js params w =
     Some (Some (Err ''execution context was destroyed''),
           w @ [Ev_EvalE True js params (Inl (Err ''execution context was destroyed''))])"
  by (subst WaitE_unfold) (simp add: failing_eval_env_def still_env_def)

lemma canceled_WaitE:
  "WaitE canceled_hidden_env js params w =
     Some (Some Canceled,
           w @ [Ev_EvalE True js params (Inr false_object), Ev_Sleeper (Some Canceled)])"
  by (subst WaitE_unfold)
     (simp add: canceled_hidden_env_def hidden_env_def still_env_def false_object_def)

lemma still_visible:
  "WaitVisibleE still_env w = Some (None, w @ [Ev_EvalE True ''visible'' [] (Inr true_object)])"
  by (simp add: WaitVisibleE_def still_WaitE) (simp add: still_env_def)




subsection \<open>Samples and chains\<close>




lemma quad_box: "Box_literal quad = Return \<lparr>Top = 10, Left = 20, Width = 100, Height = 50\<rparr>"
  by (simp add: Box_literal_def quad_def)


lemma chain_run_1: "ev_error a = Some e \<Longrightarrow> length rest \<ge> 0 \<Longrightarrow> chain_run (a # rest) [a] (Some e)"
  unfolding chain_run_def by (rule exI[of _ 1]) simp

lemma chain_run_2:
  "ev_error a = None \<Longrightarrow> ev_error b = Some e \<Longrightarrow> chain_run (a # b # rest) [a, b] (Some e)"
  unfolding chain_run_def by (rule exI[of _ 2]) (simp add: less_Suc_eq)

lemma chain_run_3:
  "ev_error a = None \<Longrightarrow> ev_error b = None \<Longrightarrow> ev_error c = Some e
     \<Longrightarrow> chain_run (a # b # c # rest) [a, b, c] (Some e)"
  unfolding chain_run_def
  by (rule exI[of _ 3]) (auto simp: less_Suc_eq numeral_3_eq_3)

lemma chain_run_4:
  "ev_error a = None \<Longrightarrow> ev_error b = None \<Longrightarrow> ev_error c = None
     \<Longrightarrow> chain_run [a, b, c, d] [a, b, c, d] (ev_error d)"
  unfolding chain_run_def
  by (rule exI[of _ 4]) (auto simp: less_Suc_eq numeral_3_eq_3)

subsection \<open>The stability loop\<close>






subsection \<open>The resource fetch\<close>

lemma ResourceE_body_log:
  "\<exists>mid. snd (ResourceE_body env src v) = v @ mid
         \<and> Ev_Restore \<notin> set mid \<and> Ev_EnableDomain \<notin> set mid
         \<and> (\<forall>frameID url data b64.
               Ev_PageGetResourceContent frameID url (Inr (data, b64)) \<in> set mid
               \<longrightarrow> url = String (Value src)
                   \<and> fst (ResourceE_body env src v)
                       = (if b64 then DecodeString env data else Inr data))
         \<and> (\<forall>ev err. ev \<in> set mid \<and> ev_error ev = Some err
               \<longrightarrow> fst (ResourceE_body env src v) = Inl err)"
  by (auto simp: ResourceE_body_def Let_def split: sum.splits prod.splits)

lemma still_resource:
  "ResourceE still_env [] =
     (Inr ''raw bytes'',
      [Ev_EvalE True ''resource'' [] (Inr true_object), Ev_EnableDomain,
       Ev_frameID (Inr ''frame''),
       Ev_PageGetResourceContent ''frame'' ''true'' (Inr (''raw bytes'', False)),
       Ev_Restore])"
  by (simp add: ResourceE_def ResourceE_body_def EvalE_eq still_env_def true_object_def Let_def)

lemma failing_resource:
  "ResourceE failing_fetch_env [] =
     (Inl (Err ''fetch failed''),
      [Ev_EvalE True ''resource'' [] (Inr true_object), Ev_EnableDomain,
       Ev_frameID (Inr ''frame''),
       Ev_PageGetResourceContent ''frame'' ''true'' (Inl (Err ''fetch failed'')),
       Ev_Restore])"
  by (simp add: ResourceE_def ResourceE_body_def EvalE_eq failing_fetch_env_def
      still_env_def true_object_def Let_def)

subsection \<open>The claims\<close>



text \<open>
  C5. Whenever \<open>ClickE\<close> issues the mouse button event, the calls after the
  visibility wait are exactly: scroll into view, the box-model query, the mouse move
  to \<open>(left + width/2, top + height/2)\<close> of the box with one step, then the button
  event. And when the wait, the scroll and the query succeed with a box, the move to
  that point with one step is the next call, followed by the button event if the
  move succeeded and by nothing if it failed. At the box
  \<open>{top: 10, left: 20, width: 100, height: 50}\<close> the move is \<open>MoveE(70, 35, 1)\<close>.
\<close>

theorem ClickE_moves_to_centre_before_click:
  assumes "WaitVisibleE env w = Some (e1, w1)"
  shows "\<exists>out steps. ClickE env button w = Some (out, w1 @ steps)
     \<and> (\<forall>b r. Ev_Mouse_ClickE b r \<in> set steps \<longrightarrow>
          (\<exists>Content box. Box_literal Content = Return box
              \<and> steps = [Ev_DOMScrollIntoViewIfNeeded None, Ev_DOMGetBoxModel (Inr Content),
                         Ev_Mouse_MoveE (Left box + Width box / 2) (Top box + Height box / 2) 1 None,
                         Ev_Mouse_ClickE button r]
              \<and> out = Return r \<and> e1 = None))
     \<and> (\<forall>Content box. e1 = None \<and> DOMScrollIntoViewIfNeeded env w1 = None
           \<and> DOMGetBoxModel env (w1 @ [Ev_DOMScrollIntoViewIfNeeded None]) = Inr Content
           \<and> Box_literal Content = Return box
         \<longrightarrow> (\<exists>m. take 3 steps = [Ev_DOMScrollIntoViewIfNeeded None, Ev_DOMGetBoxModel (Inr Content),
                                  Ev_Mouse_MoveE (Left box + Width box / 2)
                                    (Top box + Height box / 2) 1 m]
               \<and> (m = None \<longrightarrow> (\<exists>r. drop 3 steps = [Ev_Mouse_ClickE button r] \<and> out = Return r))
               \<and> (\<forall>err. m = Some err \<longrightarrow> drop 3 steps = [] \<and> out = Return (Some err))))"
proof (cases e1)
  case (Some e)
  then have "ClickE env button w = Some (Return (Some e), w1 @ [])"
    using assms by (simp add: ClickE_def)
  then show ?thesis using Some by (intro exI[of _ "Return (Some e)"] exI[of _ "[]"]) simp
next
  case None
  note e1 = None
  note vis = assms[unfolded None]
  show ?thesis
  proof (cases "DOMScrollIntoViewIfNeeded env w1")
    case (Some e)
    then have "ClickE env button w
                 = Some (Return (Some e), w1 @ [Ev_DOMScrollIntoViewIfNeeded (Some e)])"
      using vis by (simp add: ClickE_def ScrollIntoViewE_eq)
    then show ?thesis
      using Some
      by (intro exI[of _ "Return (Some e)"] exI[of _ "[Ev_DOMScrollIntoViewIfNeeded (Some e)]"])
         simp
  next
    case sc: None
    define w2 where "w2 = w1 @ [Ev_DOMScrollIntoViewIfNeeded None]"
    have scroll: "ScrollIntoViewE env w1 = (None, w2)"
      using sc by (simp add: ScrollIntoViewE_eq w2_def)
    show ?thesis
    proof (cases "DOMGetBoxModel env w2")
      case (Inl e)
      then have "ClickE env button w
                   = Some (Return (Some e),
                       w1 @ [Ev_DOMScrollIntoViewIfNeeded None, Ev_DOMGetBoxModel (Inl e)])"
        using vis scroll by (simp add: ClickE_def BoxE_eq w2_def)
      then show ?thesis
        using Inl sc
        by (intro exI[of _ "Return (Some e)"]
              exI[of _ "[Ev_DOMScrollIntoViewIfNeeded None, Ev_DOMGetBoxModel (Inl e)]"])
           (simp add: w2_def)
    next
      case (Inr Content)
      show ?thesis
      proof (cases "Box_literal Content")
        case (Panic p)
        then have "ClickE env button w
                   = Some (Panic p,
                       w1 @ [Ev_DOMScrollIntoViewIfNeeded None, Ev_DOMGetBoxModel (Inr Content)])"
          using vis scroll Inr by (simp add: ClickE_def BoxE_eq w2_def)
        then show ?thesis
          using Inr sc Panic
          by (intro exI[of _ "Panic p"]
              exI[of _ "[Ev_DOMScrollIntoViewIfNeeded None, Ev_DOMGetBoxModel (Inr Content)]"])
           (simp add: w2_def)
      next
        case (Return box)
        define x where "x = Left box + Width box / 2"
        define y where "y = Top box + Height box / 2"
        define w3 where "w3 = w2 @ [Ev_DOMGetBoxModel (Inr Content)]"
        have box: "BoxE env w2 = (Return (Inr box), w3)"
          using Inr Return by (simp add: BoxE_eq w3_def)
        define m where "m = Mouse_MoveE env w3 x y 1"
        define w4 where "w4 = w3 @ [Ev_Mouse_MoveE x y 1 m]"
        have w4: "w4 = w1 @ [Ev_DOMScrollIntoViewIfNeeded None, Ev_DOMGetBoxModel (Inr Content),
                            Ev_Mouse_MoveE x y 1 m]"
          by (simp add: w4_def w3_def w2_def)
        show ?thesis
        proof (cases m)
          case (Some e)
          have "ClickE env button w = Some (Return (Some e), w4)"
            using vis scroll box Some
            by (simp add: ClickE_def Let_def x_def[symmetric] y_def[symmetric] m_def[symmetric]
                  w4_def)
          then show ?thesis
            using Inr sc Return Some unfolding w4
            by (intro exI[of _ "Return (Some e)"]
                exI[of _ "[Ev_DOMScrollIntoViewIfNeeded None, Ev_DOMGetBoxModel (Inr Content),
                            Ev_Mouse_MoveE x y 1 m]"])
              (simp add: w2_def x_def y_def)
        next
          case mv: None
          define r where "r = Mouse_ClickE env w4 button"
          have w4': "w3 @ [Ev_Mouse_MoveE x y 1 None] = w4"
            using mv by (simp add: w4_def)
          have "ClickE env button w = Some (Return r, w4 @ [Ev_Mouse_ClickE button r])"
            using vis scroll box mv
            by (simp add: ClickE_def Let_def x_def[symmetric] y_def[symmetric] m_def[symmetric]
                  w4' r_def)
          then show ?thesis
            using Inr sc Return mv e1 unfolding w4
            by (intro exI[of _ "Return r"]
                exI[of _ "[Ev_DOMScrollIntoViewIfNeeded None, Ev_DOMGetBoxModel (Inr Content),
                            Ev_Mouse_MoveE x y 1 m, Ev_Mouse_ClickE button r]"])
              (simp add: w2_def x_def y_def)
        qed
      qed
    qed
  qed
qed

theorem ClickE_moves_to_centre_before_click_witness:
  "WaitVisibleE still_env [] = Some (None, [Ev_EvalE True ''visible'' [] (Inr true_object)])
   \<and> Box_literal quad = Return \<lparr>Top = 10, Left = 20, Width = 100, Height = 50\<rparr>
   \<and> ClickE still_env ''left'' [] =
       Some (Return None,
             [Ev_EvalE True ''visible'' [] (Inr true_object),
              Ev_DOMScrollIntoViewIfNeeded None,
              Ev_DOMGetBoxModel (Inr quad),
              Ev_Mouse_MoveE 70 35 1 None,
              Ev_Mouse_ClickE ''left'' None])"
proof -
  let ?v = "[Ev_EvalE True ''visible'' [] (Inr true_object)]"
  have vis: "WaitVisibleE still_env [] = Some (None, ?v)"
    using still_visible[of "[]"] by simp
  have sc: "DOMScrollIntoViewIfNeeded still_env ?v = None"
    and bx: "DOMGetBoxModel still_env (?v @ [Ev_DOMScrollIntoViewIfNeeded None]) = Inr quad"
    and mv: "\<And>u x y n. Mouse_MoveE still_env u x y n = None"
    and ck: "\<And>u b. Mouse_ClickE still_env u b = None"
    by (simp_all add: still_env_def)
  have direct: "ClickE still_env ''left'' [] =
       Some (Return None,
             ?v @ [Ev_DOMScrollIntoViewIfNeeded None, Ev_DOMGetBoxModel (Inr quad),
                   Ev_Mouse_MoveE 70 35 1 None, Ev_Mouse_ClickE ''left'' None])"
    using vis sc bx
    by (simp add: ClickE_def ScrollIntoViewE_eq BoxE_eq quad_box Let_def mv ck)
  show ?thesis
    using ClickE_moves_to_centre_before_click[OF vis, of "''left''"] direct vis quad_box
    by simp
qed

text \<open>
  C6. When \<open>WaitE\<close> returns, the calls it made are polls of the script that each
  came back false and were followed by a full sleep, and then either a poll that
  came back true (result \<open>nil\<close>), a poll that failed (its error, unchanged), or a
  poll that came back false and a sleep ended by the context (the context's error).
  One poll decides accordingly: an error or true ends the wait, false sleeps and
  polls again. A script that always comes back false, with sleeps never ended, keeps
  \<open>WaitE\<close> from ever returning.
\<close>

theorem WaitE_stops_on_true_error_or_cancel:
  "(\<forall>err w'. WaitE env js params w = Some (err, w')
       \<longrightarrow> (\<exists>pre final. w' = w @ pre @ final \<and> retries js params pre
               \<and> WaitE_final js params final err))
   \<and> WaitE env js params w =
       (let r = page_EvalE env w True js params; w1 = w @ [Ev_EvalE True js params r]
        in case r of
             Inl err \<Rightarrow> Some (Some err, w1)
           | Inr res \<Rightarrow>
               if Bool (Value res) then Some (None, w1)
               else (case Sleeper env w1 of
                       Some e \<Rightarrow> Some (Some e, w1 @ [Ev_Sleeper (Some e)])
                     | None \<Rightarrow> WaitE env js params (w1 @ [Ev_Sleeper None])))
   \<and> ((\<forall>v. \<exists>res. page_EvalE env v True js params = Inr res \<and> \<not> Bool (Value res))
        \<and> (\<forall>v. Sleeper env v = None)
       \<longrightarrow> WaitE env js params w = None)"
proof (intro conjI allI impI)
  fix err w' assume "WaitE env js params w = Some (err, w')"
  then have "Retry env (WaitE_fn env js params) w = Some (err, w')"
    by (simp add: WaitE_def)
  from Retry_WaitE_log[OF this, of js params]
  show "\<exists>pre final. w' = w @ pre @ final \<and> retries js params pre
          \<and> WaitE_final js params final err"
    by simp
next
  show "WaitE env js params w =
       (let r = page_EvalE env w True js params; w1 = w @ [Ev_EvalE True js params r]
        in case r of
             Inl err \<Rightarrow> Some (Some err, w1)
           | Inr res \<Rightarrow>
               if Bool (Value res) then Some (None, w1)
               else (case Sleeper env w1 of
                       Some e \<Rightarrow> Some (Some e, w1 @ [Ev_Sleeper (Some e)])
                     | None \<Rightarrow> WaitE env js params (w1 @ [Ev_Sleeper None])))"
    by (rule WaitE_unfold)
next
  assume "(\<forall>v. \<exists>res. page_EvalE env v True js params = Inr res \<and> \<not> Bool (Value res))
        \<and> (\<forall>v. Sleeper env v = None)"
  then show "WaitE env js params w = None"
    using WaitE_false_diverges by blast
qed

theorem WaitE_stops_on_true_error_or_cancel_witness:
  "WaitE still_env ''visible'' [] [] =
     Some (None, [Ev_EvalE True ''visible'' [] (Inr true_object)])
   \<and> retries ''visible'' [] []
   \<and> WaitE_final ''visible'' [] [Ev_EvalE True ''visible'' [] (Inr true_object)] None
   \<and> WaitE failing_eval_env ''visible'' [] [] =
     Some (Some (Err ''execution context was destroyed''),
           [Ev_EvalE True ''visible'' [] (Inl (Err ''execution context was destroyed''))])
   \<and> WaitE canceled_hidden_env ''visible'' [] [] =
     Some (Some Canceled,
           [Ev_EvalE True ''visible'' [] (Inr false_object), Ev_Sleeper (Some Canceled)])
   \<and> (\<forall>v. \<exists>res. page_EvalE hidden_env v True ''visible'' [] = Inr res \<and> \<not> Bool (Value res))
   \<and> (\<forall>v. Sleeper hidden_env v = None)
   \<and> WaitE hidden_env ''visible'' [] [] = None"
proof -
  have f: "\<forall>v. \<exists>res. page_EvalE hidden_env v True ''visible'' [] = Inr res \<and> \<not> Bool (Value res)"
    by (simp add: hidden_env_def still_env_def false_object_def)
  have s: "\<forall>v. Sleeper hidden_env v = None"
    by (simp add: hidden_env_def still_env_def)
  have d: "WaitE hidden_env ''visible'' [] [] = None"
    using WaitE_stops_on_true_error_or_cancel[of hidden_env "''visible''" "[]" "[]"] f s
    by blast
  have t: "WaitE_final ''visible'' [] [Ev_EvalE True ''visible'' [] (Inr true_object)] None"
    using WaitE_stops_on_true_error_or_cancel[of still_env "''visible''" "[]" "[]"]
      still_WaitE[of "''visible''" "[]" "[]"]
    by (simp add: WaitE_final_def true_object_def)
  show ?thesis
    using f s d t still_WaitE[of "''visible''" "[]" "[]"] failing_WaitE[of "''visible''" "[]" "[]"]
      canceled_WaitE[of "''visible''" "[]" "[]"]
    by simp
qed

text \<open>
  C7. After the visibility wait, \<open>InputE\<close> makes the calls of the chain scroll into
  view, evaluate \<open>this.focus()\<close> (the two steps of \<open>FocusE\<close>), insert the text,
  evaluate the \<open>inputEvent\<close> helper, in this order, up to and including the first one
  that fails; it returns the error of the last call made, and \<open>nil\<close> only after all
  four. When the visibility wait fails, its error is returned and no call is made.
\<close>

theorem InputE_chain:
  assumes "WaitVisibleE env w = Some (e1, w1)"
    and "jsHelper env ''inputEvent'' [] = (js, jsArgs)"
  shows "\<exists>err steps. InputE env text w = Some (err, w1 @ steps)
           \<and> (case e1 of
                 Some e \<Rightarrow> err = Some e \<and> steps = []
               | None \<Rightarrow>
                   (\<exists>r1 r2 r3 r4.
                      chain_run [Ev_DOMScrollIntoViewIfNeeded r1,
                                 Ev_EvalE True ''this.focus()'' [] r2,
                                 Ev_Keyboard_InsertTextE text r3,
                                 Ev_EvalE True js jsArgs r4] steps err))"
proof (cases e1)
  case (Some e)
  then show ?thesis using assms by (simp add: InputE_def)
next
  case None
  define r1 where "r1 = DOMScrollIntoViewIfNeeded env w1"
  define v1 where "v1 = w1 @ [Ev_DOMScrollIntoViewIfNeeded r1]"
  define r2 where "r2 = page_EvalE env v1 True ''this.focus()'' []"
  define v2 where "v2 = v1 @ [Ev_EvalE True ''this.focus()'' [] r2]"
  define r3 where "r3 = Keyboard_InsertTextE env v2 text"
  define v3 where "v3 = v2 @ [Ev_Keyboard_InsertTextE text r3]"
  define r4 where "r4 = page_EvalE env v3 True js jsArgs"
  let ?chain = "[Ev_DOMScrollIntoViewIfNeeded r1, Ev_EvalE True ''this.focus()'' [] r2,
                 Ev_Keyboard_InsertTextE text r3, Ev_EvalE True js jsArgs r4]"
  have goal: "\<exists>err steps. InputE env text w = Some (err, w1 @ steps) \<and> chain_run ?chain steps err"
  proof (cases r1)
    case (Some e)
    then have "InputE env text w = Some (Some e, w1 @ [Ev_DOMScrollIntoViewIfNeeded r1])"
      using assms None by (simp add: InputE_def FocusE_eq r1_def)
    moreover have "chain_run ?chain [Ev_DOMScrollIntoViewIfNeeded r1] (Some e)"
      using Some by (intro chain_run_1) simp_all
    ultimately show ?thesis by blast
  next
    case r1: None
    have r1': "DOMScrollIntoViewIfNeeded env w1 = None"
      using r1 by (simp add: r1_def)
    have r2': "page_EvalE env (w1 @ [Ev_DOMScrollIntoViewIfNeeded None]) True ''this.focus()'' [] = r2"
      using r1 by (simp add: r2_def v1_def)
    show ?thesis
    proof (cases r2)
      case (Inl e)
      then have "FocusE env w1 = (Some e, w1 @ take 2 ?chain)"
        using r1 by (simp add: FocusE_eq r1' r2')
      then have "InputE env text w = Some (Some e, w1 @ take 2 ?chain)"
        using assms None by (simp add: InputE_def)
      moreover have "chain_run ?chain (take 2 ?chain) (Some e)"
        using r1 Inl by (simp add: chain_run_2)
      ultimately show ?thesis by blast
    next
      case r2: (Inr res)
      have foc: "FocusE env w1 = (None, v2)"
        using r1 r2 by (simp add: FocusE_eq r1' r2' v1_def v2_def)
      have r3': "Keyboard_InsertTextE env v2 text = r3"
        by (simp add: r3_def)
      show ?thesis
      proof (cases r3)
        case (Some e)
        have "InputE env text w = Some (Some e, v3)"
          using assms None foc r3' Some by (simp add: InputE_def Let_def v3_def)
        moreover have "v3 = w1 @ take 3 ?chain"
          by (simp add: v3_def v2_def v1_def)
        moreover have "chain_run ?chain (take 3 ?chain) (Some e)"
          using r1 r2 Some by (simp add: chain_run_3)
        ultimately show ?thesis by metis
      next
        case r3: None
        have v3': "v2 @ [Ev_Keyboard_InsertTextE text None] = v3"
          using r3 by (simp add: v3_def)
        have r4': "page_EvalE env v3 True js jsArgs = r4"
          by (simp add: r4_def)
        have "InputE env text w = Some (sum_error r4, v3 @ [Ev_EvalE True js jsArgs r4])"
          using assms None foc r3' r3
          by (simp add: InputE_def Let_def v3' EvalE_eq r4' split: sum.splits)
        moreover have "v3 @ [Ev_EvalE True js jsArgs r4] = w1 @ ?chain"
          by (simp add: v3_def v2_def v1_def)
        moreover have "chain_run ?chain ?chain (ev_error (Ev_EvalE True js jsArgs r4))"
          using r1 r2 r3 by (intro chain_run_4) simp_all
        ultimately show ?thesis by (metis ev_error.simps(1))
      qed
    qed
  qed
  then obtain err steps where a: "InputE env text w = Some (err, w1 @ steps)"
    and b: "chain_run ?chain steps err"
    by blast
  from b have "\<exists>r1 r2 r3 r4.
      chain_run [Ev_DOMScrollIntoViewIfNeeded r1, Ev_EvalE True ''this.focus()'' [] r2,
                 Ev_Keyboard_InsertTextE text r3, Ev_EvalE True js jsArgs r4] steps err"
    by blast
  with a None show ?thesis by auto
qed

theorem InputE_chain_witness:
  "WaitVisibleE still_env [] = Some (None, [Ev_EvalE True ''visible'' [] (Inr true_object)])
   \<and> jsHelper still_env ''inputEvent'' [] = (''inputEvent'', [])
   \<and> InputE still_env ''hello'' [] =
       Some (None,
             [Ev_EvalE True ''visible'' [] (Inr true_object),
              Ev_DOMScrollIntoViewIfNeeded None,
              Ev_EvalE True ''this.focus()'' [] (Inr true_object),
              Ev_Keyboard_InsertTextE ''hello'' None,
              Ev_EvalE True ''inputEvent'' [] (Inr true_object)])
   \<and> WaitVisibleE failing_eval_env [] =
       Some (Some (Err ''execution context was destroyed''),
             [Ev_EvalE True ''visible'' [] (Inl (Err ''execution context was destroyed''))])
   \<and> InputE failing_eval_env ''hello'' [] =
       Some (Some (Err ''execution context was destroyed''),
             [Ev_EvalE True ''visible'' [] (Inl (Err ''execution context was destroyed''))])
   \<and> InputE failing_insert_env ''hello'' [] =
       Some (Some (Err ''target closed''),
             [Ev_EvalE True ''visible'' [] (Inr true_object),
              Ev_DOMScrollIntoViewIfNeeded None,
              Ev_EvalE True ''this.focus()'' [] (Inr true_object),
              Ev_Keyboard_InsertTextE ''hello'' (Some (Err ''target closed''))])"
proof -
  let ?v = "[Ev_EvalE True ''visible'' [] (Inr true_object)]"
  have vis: "WaitVisibleE still_env [] = Some (None, ?v)"
    using still_visible[of "[]"] by simp
  have js: "jsHelper still_env ''inputEvent'' [] = (''inputEvent'', [])"
    by (simp add: still_env_def)
  have visf: "WaitVisibleE failing_eval_env [] =
       Some (Some (Err ''execution context was destroyed''),
             [Ev_EvalE True ''visible'' [] (Inl (Err ''execution context was destroyed''))])"
    by (simp add: WaitVisibleE_def failing_WaitE) (simp add: failing_eval_env_def still_env_def)
  have jsf: "jsHelper failing_eval_env ''inputEvent'' [] = (''inputEvent'', [])"
    by (simp add: failing_eval_env_def still_env_def)
  have visi: "WaitVisibleE failing_insert_env [] = Some (None, ?v)"
    by (simp add: WaitVisibleE_def failing_insert_env_def)
       (subst WaitE_unfold, simp add: still_env_def true_object_def)
  have a: "InputE still_env ''hello'' [] =
       Some (None, ?v @ [Ev_DOMScrollIntoViewIfNeeded None,
              Ev_EvalE True ''this.focus()'' [] (Inr true_object),
              Ev_Keyboard_InsertTextE ''hello'' None,
              Ev_EvalE True ''inputEvent'' [] (Inr true_object)])"
    using vis by (simp add: InputE_def FocusE_eq EvalE_eq Let_def still_env_def)
  have b: "InputE failing_eval_env ''hello'' [] =
       Some (Some (Err ''execution context was destroyed''),
             [Ev_EvalE True ''visible'' [] (Inl (Err ''execution context was destroyed''))])"
    using InputE_chain[OF visf jsf, of "''hello''"] by auto
  have c: "InputE failing_insert_env ''hello'' [] =
       Some (Some (Err ''target closed''),
             ?v @ [Ev_DOMScrollIntoViewIfNeeded None,
              Ev_EvalE True ''this.focus()'' [] (Inr true_object),
              Ev_Keyboard_InsertTextE ''hello'' (Some (Err ''target closed''))])"
    using visi
    by (simp add: InputE_def FocusE_eq EvalE_eq Let_def failing_insert_env_def still_env_def)
  show ?thesis
    using InputE_chain[OF vis js, of "''hello''"] vis js visf a b c by simp
qed

text \<open>
  C8. For a box-model query that succeeds with a quadrilateral (eight coordinates),
  \<open>BoxE\<close> returns the box with left the first coordinate, top the second, width the
  third less the first, and height the eighth less the second.
\<close>

theorem BoxE_of_quad:
  assumes "DOMGetBoxModel env w = Inr Content" and "8 \<le> length Content"
  shows "\<exists>box. BoxE env w = (Return (Inr box), w @ [Ev_DOMGetBoxModel (Inr Content)])
           \<and> Left box = Content ! 0
           \<and> Top box = Content ! 1
           \<and> Width box = Content ! 2 - Content ! 0
           \<and> Height box = Content ! 7 - Content ! 1"
  using assms by (simp add: BoxE_def Box_literal_def)

theorem BoxE_of_quad_witness:
  "DOMGetBoxModel still_env [] = Inr quad \<and> 8 \<le> length quad
   \<and> BoxE still_env [] =
       (Return (Inr \<lparr>Top = 10, Left = 20, Width = 100, Height = 50\<rparr>),
        [Ev_DOMGetBoxModel (Inr quad)])"
proof -
  have a: "DOMGetBoxModel still_env [] = Inr quad" by (simp add: still_env_def)
  have b: "8 \<le> length quad" by (simp add: quad_def)
  from BoxE_of_quad[OF a b] obtain box where
    "BoxE still_env [] = (Return (Inr box), [] @ [Ev_DOMGetBoxModel (Inr quad)])"
    "Left box = quad ! 0" "Top box = quad ! 1"
    "Width box = quad ! 2 - quad ! 0" "Height box = quad ! 7 - quad ! 1"
    by blast
  moreover have "quad ! 0 = 20" "quad ! 1 = 10" "quad ! 2 = 120" "quad ! 7 = 60"
    by (simp_all add: quad_def)
  ultimately show ?thesis using a b by (cases box) simp
qed

text \<open>
  C9. When the evaluation of the \<open>resource\<close> helper fails, \<open>ResourceE\<close> returns its
  error and neither enables nor restores the domain. Otherwise the domain is enabled
  right after the evaluation and the restore function is called exactly once, as the
  last call, whatever the frame-id lookup, the content fetch and the decoding did; an
  error of a call in between is the error returned; and the fetched content is
  decoded with \<open>DecodeString\<close> when the response says it is base64-encoded and
  returned as it is otherwise.
\<close>

theorem ResourceE_restores_once:
  assumes "jsHelper env ''resource'' [] = (js, jsArgs)"
  shows "(\<forall>err. page_EvalE env w True js jsArgs = Inl err
            \<longrightarrow> ResourceE env w = (Inl err, w @ [Ev_EvalE True js jsArgs (Inl err)]))
       \<and> (\<forall>src. page_EvalE env w True js jsArgs = Inr src
            \<longrightarrow> (\<exists>mid. snd (ResourceE env w)
                          = w @ [Ev_EvalE True js jsArgs (Inr src), Ev_EnableDomain]
                              @ mid @ [Ev_Restore]
                    \<and> Ev_Restore \<notin> set mid \<and> Ev_EnableDomain \<notin> set mid
                    \<and> (\<forall>frameID url data b64.
                          Ev_PageGetResourceContent frameID url (Inr (data, b64)) \<in> set mid
                          \<longrightarrow> url = String (Value src)
                              \<and> fst (ResourceE env w)
                                  = (if b64 then DecodeString env data else Inr data))
                    \<and> (\<forall>ev err. ev \<in> set mid \<and> ev_error ev = Some err
                          \<longrightarrow> fst (ResourceE env w) = Inl err)))"
proof (intro conjI allI impI)
  fix err assume "page_EvalE env w True js jsArgs = Inl err"
  then show "ResourceE env w = (Inl err, w @ [Ev_EvalE True js jsArgs (Inl err)])"
    using assms by (simp add: ResourceE_def EvalE_eq)
next
  fix src assume r: "page_EvalE env w True js jsArgs = Inr src"
  define v where "v = w @ [Ev_EvalE True js jsArgs (Inr src), Ev_EnableDomain]"
  have eq: "ResourceE env w
              = (fst (ResourceE_body env src v), snd (ResourceE_body env src v) @ [Ev_Restore])"
    using assms r by (simp add: ResourceE_def EvalE_eq v_def split: prod.splits)
  from ResourceE_body_log[of env src v] obtain mid where mid:
    "snd (ResourceE_body env src v) = v @ mid"
    "Ev_Restore \<notin> set mid" "Ev_EnableDomain \<notin> set mid"
    "\<forall>frameID url data b64.
        Ev_PageGetResourceContent frameID url (Inr (data, b64)) \<in> set mid
        \<longrightarrow> url = String (Value src)
            \<and> fst (ResourceE_body env src v) = (if b64 then DecodeString env data else Inr data)"
    "\<forall>ev err. ev \<in> set mid \<and> ev_error ev = Some err
        \<longrightarrow> fst (ResourceE_body env src v) = Inl err"
    by blast
  show "\<exists>mid. snd (ResourceE env w)
                 = w @ [Ev_EvalE True js jsArgs (Inr src), Ev_EnableDomain] @ mid @ [Ev_Restore]
          \<and> Ev_Restore \<notin> set mid \<and> Ev_EnableDomain \<notin> set mid
          \<and> (\<forall>frameID url data b64.
                Ev_PageGetResourceContent frameID url (Inr (data, b64)) \<in> set mid
                \<longrightarrow> url = String (Value src)
                    \<and> fst (ResourceE env w) = (if b64 then DecodeString env data else Inr data))
          \<and> (\<forall>ev err. ev \<in> set mid \<and> ev_error ev = Some err
                \<longrightarrow> fst (ResourceE env w) = Inl err)"
  proof (intro exI[of _ mid] conjI)
    show "snd (ResourceE env w)
            = w @ [Ev_EvalE True js jsArgs (Inr src), Ev_EnableDomain] @ mid @ [Ev_Restore]"
      using mid(1) by (simp add: eq v_def)
  qed (use mid in \<open>simp_all add: eq\<close>)
qed

theorem ResourceE_restores_once_witness:
  "jsHelper still_env ''resource'' [] = (''resource'', [])
   \<and> page_EvalE still_env [] True ''resource'' [] = Inr true_object
   \<and> ResourceE still_env [] =
       (Inr ''raw bytes'',
        [Ev_EvalE True ''resource'' [] (Inr true_object), Ev_EnableDomain,
         Ev_frameID (Inr ''frame''),
         Ev_PageGetResourceContent ''frame'' ''true'' (Inr (''raw bytes'', False)),
         Ev_Restore])
   \<and> ResourceE failing_fetch_env [] =
       (Inl (Err ''fetch failed''),
        [Ev_EvalE True ''resource'' [] (Inr true_object), Ev_EnableDomain,
         Ev_frameID (Inr ''frame''),
         Ev_PageGetResourceContent ''frame'' ''true'' (Inl (Err ''fetch failed'')),
         Ev_Restore])
   \<and> page_EvalE failing_eval_env [] True ''resource'' []
        = Inl (Err ''execution context was destroyed'')
   \<and> ResourceE failing_eval_env [] =
       (Inl (Err ''execution context was destroyed''),
        [Ev_EvalE True ''resource'' [] (Inl (Err ''execution context was destroyed''))])"
proof -
  have js: "jsHelper still_env ''resource'' [] = (''resource'', [])"
    and ev: "page_EvalE still_env [] True ''resource'' [] = Inr true_object"
    by (simp_all add: still_env_def)
  have jsf: "jsHelper failing_eval_env ''resource'' [] = (''resource'', [])"
    and evf: "page_EvalE failing_eval_env [] True ''resource'' []
                = Inl (Err ''execution context was destroyed'')"
    by (simp_all add: failing_eval_env_def still_env_def)
  have f: "ResourceE failing_eval_env [] =
       (Inl (Err ''execution context was destroyed''),
        [Ev_EvalE True ''resource'' [] (Inl (Err ''execution context was destroyed''))])"
    using ResourceE_restores_once[OF jsf, of "[]"] evf by simp
  show ?thesis
    using ResourceE_restores_once[OF js, of "[]"] js ev evf f still_resource failing_resource
    by simp
qed

text \<open>
  C10. When the node description succeeds, \<open>ShadowRootE\<close> panics with an index out of
  range exactly when the described node has no shadow root: with an empty
  \<open>ShadowRoots\<close> list the read of \<open>ShadowRoots[0]\<close> panics, and with a non-empty list
  \<open>ShadowRootE\<close> returns.
\<close>

theorem ShadowRootE_index_out_of_range:
  assumes "DOMDescribeNode env w 1 False = Inr node"
  shows "(ShadowRoots node = []
            \<longrightarrow> ShadowRootE env w
                  = (Panic (IndexOutOfRange 0 0), w @ [Ev_DOMDescribeNode 1 False (Inr node)]))
       \<and> (ShadowRoots node \<noteq> [] \<longrightarrow> (\<exists>r. fst (ShadowRootE env w) = Return r))"
  using assms
  by (auto simp: ShadowRootE_def DescribeE_def Let_def split: list.splits sum.splits)

theorem ShadowRootE_index_out_of_range_witness:
  "DOMDescribeNode still_env [] 1 False = Inr (DOMNode 7 [])
   \<and> ShadowRoots (DOMNode 7 []) = []
   \<and> ShadowRootE still_env []
        = (Panic (IndexOutOfRange 0 0), [Ev_DOMDescribeNode 1 False (Inr (DOMNode 7 []))])
   \<and> DOMDescribeNode shadow_env [] 1 False = Inr (DOMNode 7 [DOMNode 8 []])
   \<and> ShadowRoots (DOMNode 7 [DOMNode 8 []]) \<noteq> []
   \<and> (\<exists>r. fst (ShadowRootE shadow_env []) = Return r)"
proof -
  have a: "DOMDescribeNode still_env [] 1 False = Inr (DOMNode 7 [])"
    by (simp add: still_env_def)
  have b: "DOMDescribeNode shadow_env [] 1 False = Inr (DOMNode 7 [DOMNode 8 []])"
    by (simp add: shadow_env_def)
  show ?thesis
    using ShadowRootE_index_out_of_range[OF a] ShadowRootE_index_out_of_range[OF b] a b
    by simp
qed

end
